theory Spec2Isabelle
  imports Complex_Main "HOL-Library.Log_Nat"
begin

section \<open>Python values\<close>

text \<open>
  The values that travel through the program are what \<^verbatim>\<open>response.json()\<close> yields and
  what the handlers put into dictionaries: \<^verbatim>\<open>None\<close>, booleans, integers, floats, strings,
  lists and dictionaries with string keys. A finite float is represented by the rational
  it denotes; the three non-finite floats are separate values. A dictionary is an
  association list in insertion order; a lookup takes the first binding of a key, and
  the keys of a well-formed dictionary are distinct.
  A string is a list of \<^typ>\<open>char\<close> with one element for each code point; the strings of
  the model are those whose code points are all below 256.
\<close>

datatype nonfinite = NaN | PosInf | NegInf

datatype json =
    JNull
  | JBool bool
  | JInt int
  | JFloat rat
  | JNonFinite nonfinite
  | JStr string
  | JList "json list"
  | JObj "(string \<times> json) list"

type_synonym pydict = "(string \<times> json) list"

text \<open>
  Exceptions are values. The two \<^verbatim>\<open>Exception(...)\<close> objects that \<^verbatim>\<open>fetch_tweets\<close>
  raises itself have a constructor each; \<open>RequestException\<close> is whatever
  \<^verbatim>\<open>requests.get\<close> raises, \<open>JSONDecodeError\<close> what \<^verbatim>\<open>response.json()\<close> and
  \<^verbatim>\<open>json.load\<close> raise, \<open>OSError\<close> what the operating system refuses, and
  \<open>ExternalError\<close> a failure of the cleaner or the analyzer.
\<close>

datatype py_error =
    AttributeError
  | TypeError
  | ValueError
  | OverflowError
  | KeyError
  | ZeroDivisionError
  | OSError
  | RequestException
  | JSONDecodeError
  | ApiRequestFailed int string
  | NoTweetsFound
  | ExternalError string

definition bind_exc :: "py_error + 'a \<Rightarrow> ('a \<Rightarrow> py_error + 'b) \<Rightarrow> py_error + 'b" where
  "bind_exc m f = (case m of Inl e \<Rightarrow> Inl e | Inr x \<Rightarrow> f x)"

fun map_exc :: "('a \<Rightarrow> py_error + 'b) \<Rightarrow> 'a list \<Rightarrow> py_error + 'b list" where
  "map_exc f [] = Inr []"
| "map_exc f (x # xs) =
     bind_exc (f x) (\<lambda>y. bind_exc (map_exc f xs) (\<lambda>ys. Inr (y # ys)))"

text \<open>Truth value of an object, as \<^verbatim>\<open>if x\<close>, \<^verbatim>\<open>not x\<close> and \<^verbatim>\<open>while x\<close> take it.\<close>

fun py_truthy :: "json \<Rightarrow> bool" where
  "py_truthy JNull = False"
| "py_truthy (JBool b) = b"
| "py_truthy (JInt i) = (i \<noteq> 0)"
| "py_truthy (JFloat r) = (r \<noteq> 0)"
| "py_truthy (JNonFinite _) = True"
| "py_truthy (JStr s) = (s \<noteq> [])"
| "py_truthy (JList xs) = (xs \<noteq> [])"
| "py_truthy (JObj kvs) = (kvs \<noteq> [])"

text \<open>\<^verbatim>\<open>d.get(k, default)\<close>: only a dictionary has the method.\<close>

fun dict_get :: "json \<Rightarrow> string \<Rightarrow> json \<Rightarrow> py_error + json" where
  "dict_get (JObj kvs) k d = Inr (case map_of kvs k of None \<Rightarrow> d | Some v \<Rightarrow> v)"
| "dict_get _ k d = Inl AttributeError"

text \<open>\<^verbatim>\<open>d.keys()\<close>, which the debug lines evaluate inside their f-strings.\<close>

fun py_keys :: "json \<Rightarrow> py_error + string list" where
  "py_keys (JObj kvs) = Inr (map fst kvs)"
| "py_keys _ = Inl AttributeError"

fun py_len :: "json \<Rightarrow> py_error + nat" where
  "py_len (JStr s) = Inr (length s)"
| "py_len (JList xs) = Inr (length xs)"
| "py_len (JObj kvs) = Inr (length kvs)"
| "py_len _ = Inl TypeError"

text \<open>Iteration: a string yields its characters, a dictionary its keys.\<close>

fun py_iter :: "json \<Rightarrow> py_error + json list" where
  "py_iter (JStr s) = Inr (map (\<lambda>c. JStr [c]) s)"
| "py_iter (JList xs) = Inr xs"
| "py_iter (JObj kvs) = Inr (map (\<lambda>kv. JStr (fst kv)) kvs)"
| "py_iter _ = Inl TypeError"

text \<open>\<^verbatim>\<open>{**d, k: v}\<close>: an existing key keeps its place, a new key goes last.\<close>

fun dict_set :: "string \<Rightarrow> json \<Rightarrow> pydict \<Rightarrow> pydict" where
  "dict_set k v [] = [(k, v)]"
| "dict_set k v ((k', v') # kvs) =
     (if k' = k then (k, v) # kvs else (k', v') # dict_set k v kvs)"

subsection \<open>The builtin \<^verbatim>\<open>int\<close>\<close>

text \<open>
  \<^verbatim>\<open>int(s)\<close> on a string strips white space, reads an optional sign and then decimal
  digits, between which single underscores may stand; anything else is a
  \<^verbatim>\<open>ValueError\<close>, and so is a numeral of more than 4300 digits (the default of
  \<^verbatim>\<open>sys.get_int_max_str_digits()\<close>). The white space that \<^verbatim>\<open>int\<close> strips is the blank,
  the five controls from tab to carriage return and, beyond ASCII, the next-line control
  and the no-break space; the four separators \<^verbatim>\<open>0x1C\<close> to \<^verbatim>\<open>0x1F\<close>, which \<^verbatim>\<open>str.strip\<close>
  removes, are not among them. Below 256 the only decimal digits are the ASCII ones.
\<close>

definition is_space :: "char \<Rightarrow> bool" where
  "is_space c = (c \<in> set [CHR '' '', CHR 0x09, CHR 0x0A, CHR 0x0B, CHR 0x0C, CHR 0x0D,
                           CHR 0x85, CHR 0xA0])"

definition strip :: "string \<Rightarrow> string" where
  "strip s = rev (dropWhile is_space (rev (dropWhile is_space s)))"

definition is_digit :: "char \<Rightarrow> bool" where
  "is_digit c = (c \<in> set ''0123456789'')"

definition digit_val :: "char \<Rightarrow> nat" where
  "digit_val c = of_char c - 48"

fun parse_digits :: "nat \<Rightarrow> string \<Rightarrow> nat option" where
  "parse_digits acc [] = None"
| "parse_digits acc (c # cs) =
     (if \<not> is_digit c then None
      else (case cs of
              [] \<Rightarrow> Some (10 * acc + digit_val c)
            | d # ds \<Rightarrow>
                if d = CHR ''_'' then parse_digits (10 * acc + digit_val c) ds
                else parse_digits (10 * acc + digit_val c) cs))"

definition max_str_digits :: nat where
  "max_str_digits = 4300"

definition int_of_str :: "string \<Rightarrow> py_error + int" where
  "int_of_str s =
     (case strip s of
        [] \<Rightarrow> Inl ValueError
      | c # cs \<Rightarrow>
          (case (if c = CHR ''-'' then map_option (\<lambda>n. - int n) (parse_digits 0 cs)
                 else if c = CHR ''+'' then map_option int (parse_digits 0 cs)
                 else map_option int (parse_digits 0 (c # cs))) of
             None \<Rightarrow> Inl ValueError
           | Some i \<Rightarrow>
               if max_str_digits < length (filter is_digit (strip s)) then Inl ValueError
               else Inr i))"

text \<open>A float is truncated towards zero; \<^verbatim>\<open>None\<close>, lists and dictionaries are a
  \<^verbatim>\<open>TypeError\<close>.\<close>

fun py_int :: "json \<Rightarrow> py_error + int" where
  "py_int JNull = Inl TypeError"
| "py_int (JBool b) = Inr (if b then 1 else 0)"
| "py_int (JInt i) = Inr i"
| "py_int (JFloat r) = Inr (if 0 \<le> r then \<lfloor>r\<rfloor> else \<lceil>r\<rceil>)"
| "py_int (JNonFinite NaN) = Inl ValueError"
| "py_int (JNonFinite _) = Inl OverflowError"
| "py_int (JStr s) = int_of_str s"
| "py_int (JList _) = Inl TypeError"
| "py_int (JObj _) = Inl TypeError"

section \<open>Normalising one raw tweet\<close>

text \<open>
  \<^verbatim>\<open>TwitterService._process_tweet_data\<close>. The entries of the dictionary display are
  evaluated in order, the default of a \<^verbatim>\<open>get\<close> before the \<^verbatim>\<open>get\<close> itself.
\<close>

definition process_tweet_data :: "json \<Rightarrow> py_error + pydict" where
  "process_tweet_data tweet =
     bind_exc (dict_get tweet ''tweet_id'' JNull) (\<lambda>v_id.
     bind_exc (dict_get tweet ''text'' (JStr [])) (\<lambda>v_text0.
     bind_exc (dict_get tweet ''tweet_text'' v_text0) (\<lambda>v_text.
     bind_exc (dict_get tweet ''creation_date'' JNull) (\<lambda>v_timestamp.
     bind_exc (bind_exc (dict_get tweet ''favorite_count'' (JInt 0)) py_int) (\<lambda>v_favorite.
     bind_exc (bind_exc (dict_get tweet ''retweet_count'' (JInt 0)) py_int) (\<lambda>v_retweet.
     bind_exc (bind_exc (dict_get tweet ''reply_count'' (JInt 0)) py_int) (\<lambda>v_reply.
     bind_exc (bind_exc (dict_get tweet ''quote_count'' (JInt 0)) py_int) (\<lambda>v_quote.
     bind_exc (dict_get tweet ''views'' (JInt 0)) (\<lambda>v_views.
     bind_exc (bind_exc (dict_get tweet ''user'' (JObj []))
                 (\<lambda>u. dict_get u ''follower_count'' (JInt 0))) (\<lambda>v_followers.
     bind_exc (bind_exc (dict_get tweet ''user'' (JObj []))
                 (\<lambda>u. dict_get u ''name'' (JStr []))) (\<lambda>v_name.
     bind_exc (bind_exc (dict_get tweet ''user'' (JObj []))
                 (\<lambda>u. dict_get u ''username'' (JStr []))) (\<lambda>v_username.
     Inr [(''id'', v_id),
          (''text'', v_text),
          (''timestamp'', v_timestamp),
          (''favorite_count'', JInt v_favorite),
          (''retweet_count'', JInt v_retweet),
          (''reply_count'', JInt v_reply),
          (''quote_count'', JInt v_quote),
          (''views'', v_views),
          (''user_followers'', v_followers),
          (''user_name'', v_name),
          (''user_username'', v_username)]))))))))))))"


text \<open>
  A field of the nested \<^verbatim>\<open>user\<close> object is absent when the record has no \<^verbatim>\<open>user\<close>
  key, or when \<^verbatim>\<open>user\<close> is a dictionary without the field.
\<close>

definition user_field_absent :: "pydict \<Rightarrow> string \<Rightarrow> bool" where
  "user_field_absent kvs k =
     (case map_of kvs ''user'' of
        None \<Rightarrow> True
      | Some (JObj u) \<Rightarrow> map_of u k = None
      | Some _ \<Rightarrow> False)"

section \<open>Data frames\<close>

text \<open>
  A \<^verbatim>\<open>pandas.DataFrame\<close> as the code reads it: the column labels in order and one
  dictionary per row, keyed by the columns, with the Python value of each cell; a cell
  that a row does not have reads as \<^verbatim>\<open>NaN\<close>. The constructor \<^verbatim>\<open>pd.DataFrame(records)\<close>
  infers a type for each column and converts the cells to it (integers next to a
  \<^verbatim>\<open>None\<close> become floats next to \<^verbatim>\<open>NaN\<close>); it belongs to the library, and wherever the
  code builds a frame the constructor is a parameter, \<open>pd_DataFrame\<close>.
\<close>

record dataframe =
  columns :: "string list"
  rows :: "pydict list"

definition cell :: "pydict \<Rightarrow> string \<Rightarrow> json" where
  "cell row c = (case map_of row c of None \<Rightarrow> JNonFinite NaN | Some v \<Rightarrow> v)"

text \<open>\<^verbatim>\<open>df[c]\<close> for a column \<open>c\<close> of the frame: the cells of the column, row by row.\<close>

definition column :: "dataframe \<Rightarrow> string \<Rightarrow> json list" where
  "column df c = map (\<lambda>r. cell r c) (rows df)"

section \<open>The fetch client\<close>

text \<open>
  \<^verbatim>\<open>TwitterConfig\<close> is imported from \<^verbatim>\<open>config.config\<close>; the four attributes that
  \<^verbatim>\<open>fetch_tweets\<close> reads are parameters here.
\<close>

record config =
  API_KEY :: string
  API_HOST :: string
  SEARCH_URL :: string
  DEFAULT_SEARCH_PARAMS :: pydict

record http_request =
  url :: string
  headers :: "(string \<times> string) list"
  params :: pydict

text \<open>
  Of a response the code reads \<^verbatim>\<open>status_code\<close>, \<^verbatim>\<open>text\<close> and \<^verbatim>\<open>json()\<close>; the last is
  \<open>None\<close> when the body is not JSON.
\<close>

record http_response =
  status_code :: int
  body_text :: string
  body_json :: "json option"

text \<open>
  The upstream API answers the \<open>n\<close>-th request of one \<^verbatim>\<open>fetch_tweets\<close> call (counted
  from 0); \<open>None\<close> is a request that fails in transport, where \<^verbatim>\<open>requests.get\<close> raises.
\<close>

type_synonym upstream = "nat \<Rightarrow> http_request \<Rightarrow> http_response option"

definition requests_get :: "upstream \<Rightarrow> nat \<Rightarrow> http_request \<Rightarrow> py_error + http_response" where
  "requests_get up n req = (case up n req of None \<Rightarrow> Inl RequestException | Some r \<Rightarrow> Inr r)"

definition response_json :: "http_response \<Rightarrow> py_error + json" where
  "response_json r = (case body_json r of None \<Rightarrow> Inl JSONDecodeError | Some j \<Rightarrow> Inr j)"

definition max_pages :: nat where
  "max_pages = 5"

definition search_request :: "config \<Rightarrow> json \<Rightarrow> http_request" where
  "search_request cfg query =
     \<lparr>url = SEARCH_URL cfg,
      headers = [(''x-rapidapi-key'', API_KEY cfg), (''x-rapidapi-host'', API_HOST cfg)],
      params = dict_set ''query'' query (DEFAULT_SEARCH_PARAMS cfg)\<rparr>"

definition continuation_request :: "config \<Rightarrow> json \<Rightarrow> json \<Rightarrow> http_request" where
  "continuation_request cfg query continuation_token =
     \<lparr>url = SEARCH_URL cfg @ ''/continuation'',
      headers = [(''x-rapidapi-key'', API_KEY cfg), (''x-rapidapi-host'', API_HOST cfg)],
      params = dict_set ''continuation_token'' continuation_token
                 (dict_set ''query'' query (DEFAULT_SEARCH_PARAMS cfg))\<rparr>"

text \<open>
  The initial search, from the answer of \<^verbatim>\<open>requests.get\<close> to the continuation token:
  the normalised records of the first page and the token, or the exception that the
  outer \<^verbatim>\<open>except\<close> re-raises. The two debug lines are kept for what they evaluate:
  \<^verbatim>\<open>data.keys()\<close> and \<^verbatim>\<open>len(data.get('results', []))\<close>.
\<close>

definition initial_page :: "py_error + http_response \<Rightarrow> py_error + (pydict list \<times> json)" where
  "initial_page res =
     bind_exc res (\<lambda>response.
     if status_code response \<noteq> 200
     then Inl (ApiRequestFailed (status_code response) (body_text response))
     else
       bind_exc (response_json response) (\<lambda>data.
       bind_exc (py_keys data) (\<lambda>_.
       bind_exc (bind_exc (dict_get data ''results'' (JList [])) py_len) (\<lambda>_.
       bind_exc (dict_get data ''results'' (JList [])) (\<lambda>initial_tweets.
       bind_exc (bind_exc (py_iter initial_tweets) (map_exc process_tweet_data)) (\<lambda>recs.
       bind_exc (dict_get data ''continuation_token'' JNull) (\<lambda>continuation_token.
       Inr (recs, continuation_token))))))))"

text \<open>
  The body of the inner \<^verbatim>\<open>try\<close>. \<open>Inr None\<close> is a \<^verbatim>\<open>break\<close>, \<open>Inl e\<close> an exception
  (which the inner \<^verbatim>\<open>except\<close> turns into a \<^verbatim>\<open>break\<close>), \<open>Inr (Some (recs, token))\<close> a
  page that was appended, with the next token.
\<close>

definition continuation_page ::
  "py_error + http_response \<Rightarrow> py_error + (pydict list \<times> json) option" where
  "continuation_page res =
     bind_exc res (\<lambda>response.
     if status_code response \<noteq> 200 then Inr None
     else
       bind_exc (response_json response) (\<lambda>cont_data.
       bind_exc (py_keys cont_data) (\<lambda>_.
       bind_exc (bind_exc (dict_get cont_data ''results'' (JList [])) py_len) (\<lambda>_.
       bind_exc (dict_get cont_data ''results'' (JList [])) (\<lambda>new_tweets.
       if \<not> py_truthy new_tweets then Inr None
       else
         bind_exc (bind_exc (py_iter new_tweets) (map_exc process_tweet_data)) (\<lambda>recs.
         bind_exc (dict_get cont_data ''continuation_token'' JNull) (\<lambda>continuation_token.
         Inr (Some (recs, continuation_token)))))))))"

text \<open>
  The \<^verbatim>\<open>while continuation_token and page < max_pages\<close> loop. \<open>sent\<close> is the list of
  requests issued so far; the loop returns the collected records and the requests.
  The pause of \<^verbatim>\<open>time.sleep(1)\<close> before each request changes no value and is left out.
\<close>

function pagination ::
  "config \<Rightarrow> upstream \<Rightarrow> json \<Rightarrow> pydict list \<Rightarrow> json \<Rightarrow> nat \<Rightarrow> http_request list
   \<Rightarrow> pydict list \<times> http_request list" where
  "pagination cfg up query all_tweets_data continuation_token page sent =
     (if py_truthy continuation_token \<and> page < max_pages then
        (case continuation_page
                (requests_get up (length sent)
                   (continuation_request cfg query continuation_token)) of
           Inl e \<Rightarrow>
             (all_tweets_data, sent @ [continuation_request cfg query continuation_token])
         | Inr None \<Rightarrow>
             (all_tweets_data, sent @ [continuation_request cfg query continuation_token])
         | Inr (Some (new_tweets, token)) \<Rightarrow>
             pagination cfg up query (all_tweets_data @ new_tweets) token (page + 1)
               (sent @ [continuation_request cfg query continuation_token]))
      else (all_tweets_data, sent))"
  by pat_completeness auto
termination
  by (relation "measure (\<lambda>(cfg, up, query, all_tweets_data, continuation_token, page, sent).
        max_pages - page)") auto

text \<open>
  \<^verbatim>\<open>TwitterService.fetch_tweets\<close>: the data frame that \<^verbatim>\<open>pd.DataFrame\<close> builds from the
  collected records or the exception raised, together with the requests that were
  issued.
\<close>

definition fetch_tweets ::
  "(pydict list \<Rightarrow> dataframe) \<Rightarrow> config \<Rightarrow> upstream \<Rightarrow> json
   \<Rightarrow> (py_error + dataframe) \<times> http_request list" where
  "fetch_tweets pd_DataFrame cfg up query =
     (case initial_page (requests_get up 0 (search_request cfg query)) of
        Inl e \<Rightarrow> (Inl e, [search_request cfg query])
      | Inr (initial_tweets, continuation_token) \<Rightarrow>
          (case pagination cfg up query initial_tweets continuation_token 1
                  [search_request cfg query] of
             (all_tweets_data, sent) \<Rightarrow>
               if all_tweets_data = [] then (Inl NoTweetsFound, sent)
               else (Inr (pd_DataFrame all_tweets_data), sent)))"

text \<open>
  The loop seen pass by pass. A state of the loop is the value of \<^verbatim>\<open>all_tweets_data\<close>,
  \<^verbatim>\<open>continuation_token\<close> and \<^verbatim>\<open>page\<close> at the loop test, with the requests issued so far.
  \<open>loop_after cfg up query s k\<close> is the state reached from \<open>s\<close> by \<open>k\<close> passes that each
  appended a page (lines 88 to 94), and \<open>None\<close> when the loop leaves before that: by its
  test, by a \<^verbatim>\<open>break\<close> or by an exception.
\<close>

type_synonym loop_state = "pydict list \<times> json \<times> nat \<times> http_request list"

fun loop_after :: "config \<Rightarrow> upstream \<Rightarrow> json \<Rightarrow> loop_state \<Rightarrow> nat \<Rightarrow> loop_state option" where
  "loop_after cfg up query s 0 = Some s"
| "loop_after cfg up query (all_tweets_data, continuation_token, page, sent) (Suc k) =
     (if py_truthy continuation_token \<and> page < max_pages then
        (case continuation_page
                (requests_get up (length sent)
                   (continuation_request cfg query continuation_token)) of
           Inr (Some (new_tweets, token)) \<Rightarrow>
             loop_after cfg up query
               (all_tweets_data @ new_tweets, token, page + 1,
                sent @ [continuation_request cfg query continuation_token]) k
         | _ \<Rightarrow> None)
      else None)"

text \<open>
  For stating what a fetch returns: the raw results that one upstream answer carries
  (none when there is no answer, no JSON body or no iterable \<^verbatim>\<open>results\<close>), and the
  \<^verbatim>\<open>tweet_id\<close> of a raw result (\<^verbatim>\<open>None\<close> when it has none).
\<close>

definition page_results :: "http_response option \<Rightarrow> json list" where
  "page_results answer =
     (case answer of
        None \<Rightarrow> []
      | Some r \<Rightarrow>
          (case body_json r of
             None \<Rightarrow> []
           | Some d \<Rightarrow>
               (case bind_exc (dict_get d ''results'' (JList [])) py_iter of
                  Inl e \<Rightarrow> []
                | Inr ts \<Rightarrow> ts)))"

definition raw_id :: "json \<Rightarrow> json" where
  "raw_id t = (case dict_get t ''tweet_id'' JNull of Inl e \<Rightarrow> JNull | Inr v \<Rightarrow> v)"

text \<open>The \<^verbatim>\<open>id\<close> entries of a list of normalised records.\<close>

definition record_ids :: "pydict list \<Rightarrow> json list" where
  "record_ids recs = map (\<lambda>r. case map_of r ''id'' of None \<Rightarrow> JNull | Some v \<Rightarrow> v) recs"

section \<open>The aggregator\<close>

subsection \<open>Counting values\<close>

text \<open>
  \<^verbatim>\<open>Series.value_counts()\<close>: the distinct values of a column with the number of rows that
  hold each, most frequent first. Missing cells (\<^verbatim>\<open>None\<close>, \<^verbatim>\<open>NaN\<close>) are not counted, and a
  cell that cannot be hashed is a \<^verbatim>\<open>TypeError\<close>. Values are compared structurally; values
  with equal counts stay in order of first appearance.
\<close>

fun is_missing :: "json \<Rightarrow> bool" where
  "is_missing JNull = True"
| "is_missing (JNonFinite NaN) = True"
| "is_missing _ = False"

fun hashable :: "json \<Rightarrow> bool" where
  "hashable (JList _) = False"
| "hashable (JObj _) = False"
| "hashable _ = True"

fun tally :: "json \<Rightarrow> (json \<times> nat) list \<Rightarrow> (json \<times> nat) list" where
  "tally v [] = [(v, 1)]"
| "tally v ((k, n) # kns) = (if k = v then (k, Suc n) # kns else (k, n) # tally v kns)"

definition value_counts :: "json list \<Rightarrow> py_error + (json \<times> nat) list" where
  "value_counts cells =
     (if list_all hashable cells
      then Inr (sort_key (\<lambda>kn. - int (snd kn))
                  (foldl (\<lambda>acc v. tally v acc) [] (filter (\<lambda>c. \<not> is_missing c) cells)))
      else Inl TypeError)"

subsection \<open>Floating-point arithmetic\<close>

text \<open>
  A Python float is an IEEE 754 double. \<open>fl x\<close> is the double nearest to the rational
  \<open>x\<close>, a tie going to the even significand: with \<open>2 ^ e \<le> \<bar>x\<bar> < 2 ^ (e + 1)\<close>, and
  \<open>e\<close> not taken below \<open>- 1022\<close> where the subnormal numbers begin, \<open>x\<close> is rounded to a
  multiple of \<open>2 ^ (e - 52)\<close>. A rounded result of magnitude \<open>2 ^ 1024\<close> or more does not
  fit a double.
\<close>

definition round_half_even :: "rat \<Rightarrow> int" where
  "round_half_even x =
     (if x - of_int \<lfloor>x\<rfloor> < 1 / 2 then \<lfloor>x\<rfloor>
      else if 1 / 2 < x - of_int \<lfloor>x\<rfloor> then \<lfloor>x\<rfloor> + 1
      else if even \<lfloor>x\<rfloor> then \<lfloor>x\<rfloor> else \<lfloor>x\<rfloor> + 1)"

text \<open>The exponent \<open>e\<close> with \<open>2 ^ e \<le> x < 2 ^ (e + 1)\<close>, for a positive \<open>x\<close>.\<close>

definition ilog2 :: "rat \<Rightarrow> int" where
  "ilog2 x =
     (let d = bitlen (fst (quotient_of x)) - bitlen (snd (quotient_of x))
      in if 2 powi d \<le> x then d else d - 1)"

definition fl :: "rat \<Rightarrow> rat" where
  "fl x =
     (if x = 0 then 0
      else of_int (round_half_even (x / 2 powi (max (ilog2 \<bar>x\<bar>) (- 1022) - 52)))
           * 2 powi (max (ilog2 \<bar>x\<bar>) (- 1022) - 52))"

definition float_overflow :: "rat \<Rightarrow> bool" where
  "float_overflow x = (2 ^ 1024 \<le> \<bar>x\<bar>)"

text \<open>
  \<^verbatim>\<open>count / total\<close> on two integers: the correctly rounded quotient, a
  \<^verbatim>\<open>ZeroDivisionError\<close> for the divisor 0, an \<^verbatim>\<open>OverflowError\<close> for a quotient too large
  for a float.
\<close>

definition true_div :: "nat \<Rightarrow> nat \<Rightarrow> py_error + rat" where
  "true_div a b =
     (if b = 0 then Inl ZeroDivisionError
      else if float_overflow (fl (of_nat a / of_nat b)) then Inl OverflowError
      else Inr (fl (of_nat a / of_nat b)))"

text \<open>The product of two floats: rounded, and infinite when it does not fit.\<close>

definition float_mul :: "rat \<Rightarrow> rat \<Rightarrow> json" where
  "float_mul x y =
     (if float_overflow (fl (x * y))
      then JNonFinite (if 0 < x * y then PosInf else NegInf)
      else JFloat (fl (x * y)))"

text \<open>
  \<^verbatim>\<open>round(x, 1)\<close> on a finite float: the exact value of \<open>x\<close> is rounded to the nearest
  tenth, a tie going to the even one, and the double nearest to that decimal is
  returned. An infinite float rounds to itself.
\<close>

definition py_round1 :: "rat \<Rightarrow> rat" where
  "py_round1 x = fl (of_int (round_half_even (x * 10)) / 10)"

definition round_percentage :: "json \<Rightarrow> json" where
  "round_percentage v = (case v of JFloat x \<Rightarrow> JFloat (py_round1 x) | _ \<Rightarrow> v)"

subsection \<open>Language statistics\<close>

definition language_name :: "json \<Rightarrow> json" where
  "language_name lang =
     (if lang = JStr ''hi'' then JStr ''Hindi''
      else if lang = JStr ''en'' then JStr ''English''
      else lang)"

text \<open>One pass of the loop of \<^verbatim>\<open>calculate_language_stats\<close>: the entry of one language.\<close>

definition language_entry :: "nat \<Rightarrow> json \<times> nat \<Rightarrow> py_error + json" where
  "language_entry total' lc =
     bind_exc (true_div (snd lc) total') (\<lambda>q.
     Inr (JObj [(''language'', language_name (fst lc)),
                (''code'', fst lc),
                (''count'', JInt (int (snd lc))),
                (''percentage'', round_percentage (float_mul q 100))]))"

definition calculate_language_stats :: "dataframe \<Rightarrow> py_error + pydict" where
  "calculate_language_stats df =
     (if ''original_lang'' \<notin> set (columns df) then Inr [(''languages'', JList [])]
      else
        bind_exc (value_counts (column df ''original_lang'')) (\<lambda>lang_counts.
        bind_exc (map_exc (language_entry (length (rows df))) lang_counts) (\<lambda>languages.
        Inr [(''languages'', JList languages)])))"

text \<open>For stating properties: the \<^verbatim>\<open>percentage\<close> fields of a language statistics result.\<close>

fun float_val :: "json \<Rightarrow> rat" where
  "float_val (JFloat r) = r"
| "float_val (JInt i) = of_int i"
| "float_val _ = 0"

definition entry_percentage :: "json \<Rightarrow> rat" where
  "entry_percentage e =
     (case e of
        JObj kvs \<Rightarrow> (case map_of kvs ''percentage'' of None \<Rightarrow> 0 | Some v \<Rightarrow> float_val v)
      | _ \<Rightarrow> 0)"

definition percentages :: "pydict \<Rightarrow> rat list" where
  "percentages stats =
     (case map_of stats ''languages'' of
        Some (JList entries) \<Rightarrow> map entry_percentage entries
      | _ \<Rightarrow> [])"

fun is_str :: "json \<Rightarrow> bool" where
  "is_str (JStr _) = True"
| "is_str _ = False"

text \<open>
  \<^verbatim>\<open>prepare_tweet_data\<close>: \<^verbatim>\<open>row['id']\<close> and \<^verbatim>\<open>row['text']\<close> raise a \<^verbatim>\<open>KeyError\<close> when the
  column is missing, \<^verbatim>\<open>row.get\<close> falls back to its default.
\<close>

definition row_index :: "pydict \<Rightarrow> string \<Rightarrow> py_error + json" where
  "row_index row k = (case map_of row k of None \<Rightarrow> Inl KeyError | Some v \<Rightarrow> Inr v)"

definition row_get :: "pydict \<Rightarrow> string \<Rightarrow> json \<Rightarrow> json" where
  "row_get row k d = (case map_of row k of None \<Rightarrow> d | Some v \<Rightarrow> v)"

definition prepare_tweet :: "pydict \<Rightarrow> py_error + json" where
  "prepare_tweet row =
     bind_exc (row_index row ''id'') (\<lambda>v_id.
     bind_exc (row_index row ''text'') (\<lambda>v_text.
     bind_exc (row_index row ''text'') (\<lambda>v_text_default.
     Inr (JObj [(''id'', v_id),
                (''text'', v_text),
                (''cleaned_text'', row_get row ''cleaned_text'' v_text_default),
                (''favorite_count'', row_get row ''favorite_count'' (JInt 0)),
                (''retweet_count'', row_get row ''retweet_count'' (JInt 0)),
                (''reply_count'', row_get row ''reply_count'' (JInt 0)),
                (''sentiment'', row_get row ''sentiment'' (JStr ''neutral'')),
                (''sentiment_score'', row_get row ''sentiment_score'' (JInt 0)),
                (''original_lang'', row_get row ''original_lang'' (JStr ''en'')),
                (''has_translation'',
                   JBool (row_get row ''original_lang'' (JStr ''en'') \<noteq> JStr ''en''))]))))"

definition prepare_tweet_data :: "dataframe \<Rightarrow> py_error + json list" where
  "prepare_tweet_data df = map_exc prepare_tweet (rows df)"

section \<open>Persistence and retrieval\<close>

text \<open>
  The file system maps a path, relative to the working directory of the process, to the
  content of the file: a JSON document as \<^verbatim>\<open>json.dump\<close> writes and \<^verbatim>\<open>json.load\<close> reads
  it, or something that is not JSON.
\<close>

datatype file_content = Json json | Garbage

type_synonym filesystem = "string \<Rightarrow> file_content option"

definition desired_columns :: "string list" where
  "desired_columns =
     [''id'', ''text'', ''cleaned_text'', ''favorite_count'', ''retweet_count'',
      ''reply_count'', ''sentiment'', ''sentiment_score'', ''original_lang'']"

text \<open>\<^verbatim>\<open>s.replace(" ", "_").replace("/", "_").replace("\\", "_")[:30]\<close>; only a string has
  the method.\<close>

definition sanitize_query :: "json \<Rightarrow> py_error + string" where
  "sanitize_query q =
     (case q of
        JStr s \<Rightarrow>
          Inr (take 30 (map (\<lambda>c. if c = CHR '' '' \<or> c = CHR ''/'' \<or> c = CHR 0x5C
                                  then CHR ''_'' else c) s))
      | _ \<Rightarrow> Inl AttributeError)"

text \<open>
  \<^verbatim>\<open>os.path.dirname\<close> and \<^verbatim>\<open>os.path.basename\<close>, with \<^verbatim>\<open>/\<close> separating the parts of a path.
\<close>

definition dirname :: "string \<Rightarrow> string" where
  "dirname p =
     (let head = rev (dropWhile (\<lambda>c. c \<noteq> CHR ''/'') (rev p))
      in if head \<noteq> [] \<and> \<not> list_all (\<lambda>c. c = CHR ''/'') head
         then rev (dropWhile (\<lambda>c. c = CHR ''/'') (rev head))
         else head)"

definition basename :: "string \<Rightarrow> string" where
  "basename p = rev (takeWhile (\<lambda>c. c \<noteq> CHR ''/'') (rev p))"

text \<open>
  Creating a directory and opening a file for writing can fail. A path with a NUL
  character is a \<^verbatim>\<open>ValueError\<close> before the operating system is asked; otherwise
  \<open>os_error p\<close> is the exception with which the operating system refuses the path \<open>p\<close>,
  if it does. \<^verbatim>\<open>os.makedirs\<close> also refuses the empty path.
\<close>

definition os_call :: "(string \<Rightarrow> py_error option) \<Rightarrow> string \<Rightarrow> py_error option" where
  "os_call os_error p = (if CHR 0x00 \<in> set p then Some ValueError else os_error p)"

definition makedirs :: "(string \<Rightarrow> py_error option) \<Rightarrow> string \<Rightarrow> py_error option" where
  "makedirs os_error p = (if p = [] then Some OSError else os_call os_error p)"

text \<open>
  \<^verbatim>\<open>save_tweets_with_sentiment\<close>. \<open>timestamp\<close> is what
  \<^verbatim>\<open>datetime.datetime.now().strftime("%Y-%m-%d_%H-%M-%S")\<close> returns at the call. The
  envelope and the file name are computed first; then the directory is created, the
  named file is opened and written, and the latest file is opened and written. A file
  that opens is written whole.
\<close>

definition save_tweets_with_sentiment ::
  "(string \<Rightarrow> py_error option) \<Rightarrow> string \<Rightarrow> dataframe \<Rightarrow> json \<Rightarrow> filesystem
   \<Rightarrow> (py_error + string) \<times> filesystem" where
  "save_tweets_with_sentiment os_error timestamp df search_query fs =
     (let columns_to_save = filter (\<lambda>col. col \<in> set (columns df)) desired_columns;
          tweet_records = map (\<lambda>row. JObj (map (\<lambda>col. (col, cell row col)) columns_to_save))
                              (rows df)
      in case bind_exc (calculate_language_stats df) (\<lambda>lang_stats.
              bind_exc (row_index lang_stats ''languages'') (\<lambda>languages.
              bind_exc (sanitize_query search_query) (\<lambda>sanitized_query.
              Inr (JObj [(''metadata'',
                            JObj [(''search_query'', search_query),
                                  (''timestamp'', JStr timestamp),
                                  (''total_tweets'', JInt (int (length tweet_records))),
                                  (''language_stats'', languages)]),
                         (''tweets'', JList tweet_records)],
                   ''data/tweets_'' @ sanitized_query @ ''_'' @ timestamp @ ''.json'')))) of
           Inl e \<Rightarrow> (Inl e, fs)
         | Inr (data_to_save, filename) \<Rightarrow>
             (case makedirs os_error (dirname filename) of
                Some e \<Rightarrow> (Inl e, fs)
              | None \<Rightarrow>
                  (case os_call os_error filename of
                     Some e \<Rightarrow> (Inl e, fs)
                   | None \<Rightarrow>
                       (case os_call os_error ''data/latest_tweets.json'' of
                          Some e \<Rightarrow> (Inl e, fs(filename \<mapsto> Json data_to_save))
                        | None \<Rightarrow>
                            (Inr filename,
                             (fs(filename \<mapsto> Json data_to_save))
                               (''data/latest_tweets.json'' \<mapsto> Json data_to_save))))))"

section \<open>The HTTP handlers\<close>

text \<open>
  What the handlers use and the sources do not hold: the configuration, the upstream API,
  the frame constructor, \<^verbatim>\<open>DataCleaner.clean_dataframe\<close>, \<^verbatim>\<open>EngagementAnalyzer.analyze\<close>,
  the clock, the refusals of the operating system, and \<^verbatim>\<open>str\<close> of an exception.
\<close>

record services =
  twitter_config :: config
  upstream_api :: upstream
  pd_DataFrame :: "pydict list \<Rightarrow> dataframe"
  os_error :: "string \<Rightarrow> py_error option"
  clean_dataframe :: "dataframe \<Rightarrow> json \<Rightarrow> py_error + dataframe"
  analyze :: "dataframe \<Rightarrow> py_error + json"
  now :: string
  str_exc :: "py_error \<Rightarrow> string"

text \<open>The state that a request can change: the files, and the requests sent upstream.\<close>

record world =
  files :: filesystem
  requests_sent :: "http_request list"

text \<open>The body of the \<^verbatim>\<open>try\<close> of \<^verbatim>\<open>variable\<close>, up to the response dictionary.\<close>

definition pipeline :: "services \<Rightarrow> json \<Rightarrow> world \<Rightarrow> (py_error + json) \<times> world" where
  "pipeline env user_input w =
     (case fetch_tweets (pd_DataFrame env) (twitter_config env) (upstream_api env)
             user_input of
        (fetched, sent) \<Rightarrow>
          (case bind_exc fetched (\<lambda>df0.
                bind_exc (clean_dataframe env df0 user_input) (\<lambda>df.
                bind_exc (analyze env df) (\<lambda>analysis_results.
                bind_exc (calculate_language_stats df) (\<lambda>lang_stats.
                bind_exc (prepare_tweet_data df) (\<lambda>tweet_data.
                Inr (df, analysis_results)))))) of
             Inl e \<Rightarrow> (Inl e, w\<lparr>requests_sent := requests_sent w @ sent\<rparr>)
           | Inr (df, analysis_results) \<Rightarrow>
               (case save_tweets_with_sentiment (os_error env) (now env) df user_input
                       (files w) of
                  (saved, fs) \<Rightarrow>
                    (bind_exc saved (\<lambda>filename.
                     bind_exc (dict_get analysis_results ''sentiment_analysis'' (JObj []))
                       (\<lambda>sentiment_analysis.
                     bind_exc (dict_get analysis_results ''engagement_metrics'' (JObj []))
                       (\<lambda>engagement_metrics.
                     Inr (JObj [(''sentiment_analysis'', sentiment_analysis),
                                (''engagement_metrics'', engagement_metrics),
                                (''tweets_data'',
                                   JObj [(''filename'', JStr (basename filename)),
                                         (''count'', JInt (int (length (rows df)))),
                                         (''search_query'', user_input)])])))),
                     \<lparr>files = fs, requests_sent = requests_sent w @ sent\<rparr>))))"

text \<open>
  \<^verbatim>\<open>POST /api/variable\<close> on the parsed body of the request. The result is the status and
  the JSON body of the response; \<open>Inl\<close> is an exception that leaves the handler, which
  only \<^verbatim>\<open>request.json.get\<close> can raise, before the \<^verbatim>\<open>try\<close>.
\<close>

definition variable :: "services \<Rightarrow> json \<Rightarrow> world \<Rightarrow> (py_error + nat \<times> json) \<times> world" where
  "variable env body w =
     (case dict_get body ''searchQuery'' (JStr []) of
        Inl e \<Rightarrow> (Inl e, w)
      | Inr user_input \<Rightarrow>
          if \<not> py_truthy user_input
          then (Inr (400, JObj [(''message'', JStr ''No search query provided.'')]), w)
          else
            (case pipeline env user_input w of
               (Inl e, w') \<Rightarrow>
                 (Inr (500, JObj [(''error'', JStr (str_exc env e)),
                                  (''message'',
                                     JStr ''Failed to fetch or process Twitter data'')]), w')
             | (Inr response, w') \<Rightarrow> (Inr (200, response), w')))"

text \<open>\<^verbatim>\<open>GET /api/tweets\<close>.\<close>

definition get_latest_tweets :: "services \<Rightarrow> world \<Rightarrow> nat \<times> json" where
  "get_latest_tweets env w =
     (case files w ''server/data/latest_tweets.json'' of
        None \<Rightarrow> (404, JObj [(''message'', JStr ''No tweet data available yet'')])
      | Some Garbage \<Rightarrow>
          (500, JObj [(''error'', JStr (str_exc env JSONDecodeError)),
                      (''message'', JStr ''Failed to retrieve tweet data'')])
      | Some (Json tweet_data) \<Rightarrow> (200, tweet_data))"

section \<open>Concrete inputs\<close>

text \<open>A configuration, raw tweets and upstream behaviours on which the model is run.\<close>

definition example_config :: config where
  "example_config =
     \<lparr>API_KEY = ''key'', API_HOST = ''host'', SEARCH_URL = ''https://api.example/search'',
      DEFAULT_SEARCH_PARAMS = [(''section'', JStr ''top'')]\<rparr>"

definition raw_tweet :: json where
  "raw_tweet = JObj [(''tweet_id'', JStr ''1''), (''tweet_text'', JStr ''hi'')]"

definition raw_tweet2 :: json where
  "raw_tweet2 = JObj [(''tweet_id'', JStr ''2''), (''tweet_text'', JStr ''ho'')]"

definition tweet_record :: pydict where
  "tweet_record =
     [(''id'', JStr ''1''), (''text'', JStr ''hi''), (''timestamp'', JNull),
      (''favorite_count'', JInt 0), (''retweet_count'', JInt 0), (''reply_count'', JInt 0),
      (''quote_count'', JInt 0), (''views'', JInt 0), (''user_followers'', JInt 0),
      (''user_name'', JStr []), (''user_username'', JStr [])]"

definition tweet_record2 :: pydict where
  "tweet_record2 =
     [(''id'', JStr ''2''), (''text'', JStr ''ho''), (''timestamp'', JNull),
      (''favorite_count'', JInt 0), (''retweet_count'', JInt 0), (''reply_count'', JInt 0),
      (''quote_count'', JInt 0), (''views'', JInt 0), (''user_followers'', JInt 0),
      (''user_name'', JStr []), (''user_username'', JStr [])]"

text \<open>
  A frame constructor that keeps every cell as it is, with the columns in order of first
  appearance. It does what \<^verbatim>\<open>pd.DataFrame\<close> does to the records above, whose columns hold
  strings, \<^verbatim>\<open>None\<close> alone or integers alone.
\<close>

definition first_seen :: "string list \<Rightarrow> string list" where
  "first_seen xs = rev (remdups (rev xs))"

definition plain_frame :: "pydict list \<Rightarrow> dataframe" where
  "plain_frame recs =
     (let cols = first_seen (concat (map (map fst) recs))
      in \<lparr>columns = cols, rows = map (\<lambda>r. map (\<lambda>c. (c, cell r c)) cols) recs\<rparr>)"

definition ok_response :: "json list \<Rightarrow> json \<Rightarrow> http_response option" where
  "ok_response results token =
     Some \<lparr>status_code = 200, body_text = [],
           body_json = Some (JObj [(''results'', JList results),
                                   (''continuation_token'', token)])\<rparr>"

text \<open>One page with a token, then a server error on the continuation.\<close>

definition failing_upstream :: upstream where
  "failing_upstream n req =
     (if n = 0 then ok_response [raw_tweet] (JStr ''t1'')
      else Some \<lparr>status_code = 500, body_text = ''unavailable'', body_json = None\<rparr>)"

text \<open>Two pages, then a server error on the third request.\<close>

definition third_page_fails :: upstream where
  "third_page_fails n req =
     (if n = 0 then ok_response [raw_tweet] (JStr ''t1'')
      else if n = 1 then ok_response [raw_tweet2] (JStr ''t2'')
      else Some \<lparr>status_code = 500, body_text = ''unavailable'', body_json = None\<rparr>)"

text \<open>The same raw tweet on the first page and on the second, which ends the pages.\<close>

definition repeating_upstream :: upstream where
  "repeating_upstream n req =
     (if n = 0 then ok_response [raw_tweet] (JStr ''t1'')
      else ok_response [raw_tweet] JNull)"

text \<open>Every answer carries a result and a token for the next page.\<close>

definition endless_upstream :: upstream where
  "endless_upstream n req = ok_response [raw_tweet] (JStr ''t1'')"

text \<open>A first page without results and without token.\<close>

definition empty_upstream :: upstream where
  "empty_upstream n req = ok_response [] JNull"

text \<open>Frames as the cleaner hands them on: without rows, and with six languages.\<close>

definition empty_frame :: dataframe where
  "empty_frame = \<lparr>columns = [''id'', ''text'', ''original_lang''], rows = []\<rparr>"

definition lang_row :: "string \<Rightarrow> string \<Rightarrow> pydict" where
  "lang_row i l = [(''id'', JStr i), (''text'', JStr ''hi''), (''original_lang'', JStr l)]"

definition six_languages :: dataframe where
  "six_languages =
     \<lparr>columns = [''id'', ''text'', ''original_lang''],
      rows = [lang_row ''1'' ''en'', lang_row ''2'' ''hi'', lang_row ''3'' ''fr'',
              lang_row ''4'' ''de'', lang_row ''5'' ''es'', lang_row ''6'' ''it'']\<rparr>"

definition six_languages_stats :: pydict where
  "six_languages_stats =
     [(''languages'',
       JList (map (\<lambda>nc. JObj [(''language'', JStr (fst nc)), (''code'', JStr (snd nc)),
                              (''count'', JInt 1),
                              (''percentage'', JFloat (4700632111067955 / 2 ^ 48))])
                [(''English'', ''en''), (''Hindi'', ''hi''), (''fr'', ''fr''), (''de'', ''de''),
                 (''es'', ''es''), (''it'', ''it'')]))]"

definition two_languages :: dataframe where
  "two_languages =
     \<lparr>columns = [''id'', ''text'', ''original_lang''],
      rows = [lang_row ''1'' ''en'', lang_row ''2'' ''hi'', lang_row ''3'' ''en'']\<rparr>"

definition one_language :: dataframe where
  "one_language =
     \<lparr>columns = [''id'', ''text'', ''original_lang''],
      rows = [lang_row ''1'' ''hi'', lang_row ''2'' ''hi'', lang_row ''3'' ''hi'']\<rparr>"

text \<open>
  Services that clean and analyse without changing anything, an operating system that
  refuses nothing, and an empty disk.
\<close>

definition example_services :: services where
  "example_services =
     \<lparr>twitter_config = example_config,
      upstream_api = failing_upstream,
      pd_DataFrame = plain_frame,
      os_error = (\<lambda>p. None),
      clean_dataframe = (\<lambda>df q. Inr df),
      analyze = (\<lambda>df. Inr (JObj [])),
      now = ''2024-05-01_12-00-00'',
      str_exc = (\<lambda>e. ''error'')\<rparr>"

definition empty_world :: world where
  "empty_world = \<lparr>files = (\<lambda>p. None), requests_sent = []\<rparr>"


section \<open>Properties of the normalisation\<close>

lemma bind_exc_simps [simp]:
  "bind_exc (Inl e) f = Inl e"
  "bind_exc (Inr x) f = f x"
  by (simp_all add: bind_exc_def)

lemma bind_exc_eq_Inr: "bind_exc m f = Inr y \<longleftrightarrow> (\<exists>x. m = Inr x \<and> f x = Inr y)"
  by (cases m) simp_all

lemma user_field_absent_get:
  "user_field_absent kvs k \<Longrightarrow>
   bind_exc (dict_get (JObj kvs) ''user'' (JObj [])) (\<lambda>u. dict_get u k d) = Inr d"
  by (cases "map_of kvs ''user''"; cases "the (map_of kvs ''user'')")
     (simp_all add: user_field_absent_def)

lemma process_tweet_data_Inr:
  assumes "process_tweet_data tweet = Inr r"
  shows "\<exists>v_id v_text v_timestamp v_favorite v_retweet v_reply v_quote v_views v_followers
            v_name v_username.
           bind_exc (dict_get tweet ''favorite_count'' (JInt 0)) py_int = Inr v_favorite \<and>
           bind_exc (dict_get tweet ''retweet_count'' (JInt 0)) py_int = Inr v_retweet \<and>
           bind_exc (dict_get tweet ''reply_count'' (JInt 0)) py_int = Inr v_reply \<and>
           bind_exc (dict_get tweet ''quote_count'' (JInt 0)) py_int = Inr v_quote \<and>
           bind_exc (dict_get tweet ''user'' (JObj []))
             (\<lambda>u. dict_get u ''name'' (JStr [])) = Inr v_name \<and>
           bind_exc (dict_get tweet ''user'' (JObj []))
             (\<lambda>u. dict_get u ''username'' (JStr [])) = Inr v_username \<and>
           r = [(''id'', v_id), (''text'', v_text), (''timestamp'', v_timestamp),
                (''favorite_count'', JInt v_favorite), (''retweet_count'', JInt v_retweet),
                (''reply_count'', JInt v_reply), (''quote_count'', JInt v_quote),
                (''views'', v_views), (''user_followers'', v_followers),
                (''user_name'', v_name), (''user_username'', v_username)]"
  using assms unfolding process_tweet_data_def bind_exc_eq_Inr by blast

lemma process_tweet_data_absent:
  assumes "process_tweet_data (JObj kvs) = Inr r"
  shows "(map_of kvs ''favorite_count'' = None \<longrightarrow> map_of r ''favorite_count'' = Some (JInt 0)) \<and>
         (map_of kvs ''retweet_count'' = None \<longrightarrow> map_of r ''retweet_count'' = Some (JInt 0)) \<and>
         (map_of kvs ''reply_count'' = None \<longrightarrow> map_of r ''reply_count'' = Some (JInt 0)) \<and>
         (map_of kvs ''quote_count'' = None \<longrightarrow> map_of r ''quote_count'' = Some (JInt 0)) \<and>
         (user_field_absent kvs ''name'' \<longrightarrow> map_of r ''user_name'' = Some (JStr [])) \<and>
         (user_field_absent kvs ''username'' \<longrightarrow> map_of r ''user_username'' = Some (JStr []))"
proof -
  from process_tweet_data_Inr [OF assms] obtain v_id v_text v_timestamp v_favorite v_retweet
    v_reply v_quote v_views v_followers v_name v_username where
    fav: "bind_exc (dict_get (JObj kvs) ''favorite_count'' (JInt 0)) py_int = Inr v_favorite" and
    ret: "bind_exc (dict_get (JObj kvs) ''retweet_count'' (JInt 0)) py_int = Inr v_retweet" and
    rep: "bind_exc (dict_get (JObj kvs) ''reply_count'' (JInt 0)) py_int = Inr v_reply" and
    quo: "bind_exc (dict_get (JObj kvs) ''quote_count'' (JInt 0)) py_int = Inr v_quote" and
    nam: "bind_exc (dict_get (JObj kvs) ''user'' (JObj []))
             (\<lambda>u. dict_get u ''name'' (JStr [])) = Inr v_name" and
    usr: "bind_exc (dict_get (JObj kvs) ''user'' (JObj []))
             (\<lambda>u. dict_get u ''username'' (JStr [])) = Inr v_username" and
    r: "r = [(''id'', v_id), (''text'', v_text), (''timestamp'', v_timestamp),
             (''favorite_count'', JInt v_favorite), (''retweet_count'', JInt v_retweet),
             (''reply_count'', JInt v_reply), (''quote_count'', JInt v_quote),
             (''views'', v_views), (''user_followers'', v_followers),
             (''user_name'', v_name), (''user_username'', v_username)]"
    by blast
  have 1: "map_of kvs ''favorite_count'' = None \<longrightarrow> map_of r ''favorite_count'' = Some (JInt 0)"
    using fav by (auto simp add: r)
  have 2: "map_of kvs ''retweet_count'' = None \<longrightarrow> map_of r ''retweet_count'' = Some (JInt 0)"
    using ret by (auto simp add: r)
  have 3: "map_of kvs ''reply_count'' = None \<longrightarrow> map_of r ''reply_count'' = Some (JInt 0)"
    using rep by (auto simp add: r)
  have 4: "map_of kvs ''quote_count'' = None \<longrightarrow> map_of r ''quote_count'' = Some (JInt 0)"
    using quo by (auto simp add: r)
  have 5: "user_field_absent kvs ''name'' \<longrightarrow> map_of r ''user_name'' = Some (JStr [])"
    using nam user_field_absent_get [of kvs "''name''" "JStr []"] by (auto simp add: r)
  have 6: "user_field_absent kvs ''username'' \<longrightarrow> map_of r ''user_username'' = Some (JStr [])"
    using usr user_field_absent_get [of kvs "''username''" "JStr []"] by (auto simp add: r)
  from 1 2 3 4 5 6 show ?thesis by blast
qed

lemma process_tweet_data_example:
  "process_tweet_data
     (JObj [(''tweet_id'', JStr ''1''), (''tweet_text'', JStr ''hi''),
            (''favorite_count'', JStr ''3'')]) =
   Inr [(''id'', JStr ''1''), (''text'', JStr ''hi''), (''timestamp'', JNull),
        (''favorite_count'', JInt 3), (''retweet_count'', JInt 0), (''reply_count'', JInt 0),
        (''quote_count'', JInt 0), (''views'', JInt 0), (''user_followers'', JInt 0),
        (''user_name'', JStr []), (''user_username'', JStr [])]"
  by (simp add: process_tweet_data_def int_of_str_def max_str_digits_def strip_def is_space_def is_digit_def
      digit_val_def)

text \<open>
  Claim C6. The raw record \<^verbatim>\<open>{"tweet_id":"1","tweet_text":"hi","favorite_count":"3"}\<close>
  is normalised to id \<^verbatim>\<open>"1"\<close>, text \<^verbatim>\<open>"hi"\<close>, \<^verbatim>\<open>favorite_count\<close> the number 3 and
  the three other counts 0. In general, whenever \<^verbatim>\<open>_process_tweet_data\<close> returns a
  record for a raw dictionary, every count key that is absent from the raw dictionary
  is 0 in the record, and an absent \<^verbatim>\<open>name\<close> or \<^verbatim>\<open>username\<close> is the empty string;
  and it does return a record when the four count keys and \<^verbatim>\<open>user\<close> are all absent.
\<close>

theorem process_tweet_data_defaults:
  "process_tweet_data
     (JObj [(''tweet_id'', JStr ''1''), (''tweet_text'', JStr ''hi''),
            (''favorite_count'', JStr ''3'')]) =
   Inr [(''id'', JStr ''1''), (''text'', JStr ''hi''), (''timestamp'', JNull),
        (''favorite_count'', JInt 3), (''retweet_count'', JInt 0), (''reply_count'', JInt 0),
        (''quote_count'', JInt 0), (''views'', JInt 0), (''user_followers'', JInt 0),
        (''user_name'', JStr []), (''user_username'', JStr [])] \<and>
   (process_tweet_data (JObj kvs) = Inr r \<longrightarrow>
      (map_of kvs ''favorite_count'' = None \<longrightarrow> map_of r ''favorite_count'' = Some (JInt 0)) \<and>
      (map_of kvs ''retweet_count'' = None \<longrightarrow> map_of r ''retweet_count'' = Some (JInt 0)) \<and>
      (map_of kvs ''reply_count'' = None \<longrightarrow> map_of r ''reply_count'' = Some (JInt 0)) \<and>
      (map_of kvs ''quote_count'' = None \<longrightarrow> map_of r ''quote_count'' = Some (JInt 0)) \<and>
      (user_field_absent kvs ''name'' \<longrightarrow> map_of r ''user_name'' = Some (JStr [])) \<and>
      (user_field_absent kvs ''username'' \<longrightarrow> map_of r ''user_username'' = Some (JStr []))) \<and>
   (map_of kvs' ''favorite_count'' = None \<and> map_of kvs' ''retweet_count'' = None \<and>
    map_of kvs' ''reply_count'' = None \<and> map_of kvs' ''quote_count'' = None \<and>
    map_of kvs' ''user'' = None \<longrightarrow>
      (\<exists>r'. process_tweet_data (JObj kvs') = Inr r'))"
proof -
  have general: "process_tweet_data (JObj kvs) = Inr r \<longrightarrow>
      (map_of kvs ''favorite_count'' = None \<longrightarrow> map_of r ''favorite_count'' = Some (JInt 0)) \<and>
      (map_of kvs ''retweet_count'' = None \<longrightarrow> map_of r ''retweet_count'' = Some (JInt 0)) \<and>
      (map_of kvs ''reply_count'' = None \<longrightarrow> map_of r ''reply_count'' = Some (JInt 0)) \<and>
      (map_of kvs ''quote_count'' = None \<longrightarrow> map_of r ''quote_count'' = Some (JInt 0)) \<and>
      (user_field_absent kvs ''name'' \<longrightarrow> map_of r ''user_name'' = Some (JStr [])) \<and>
      (user_field_absent kvs ''username'' \<longrightarrow> map_of r ''user_username'' = Some (JStr []))"
    by (rule impI) (rule process_tweet_data_absent)
  have returns: "map_of kvs' ''favorite_count'' = None \<and> map_of kvs' ''retweet_count'' = None \<and>
    map_of kvs' ''reply_count'' = None \<and> map_of kvs' ''quote_count'' = None \<and>
    map_of kvs' ''user'' = None \<longrightarrow>
      (\<exists>r'. process_tweet_data (JObj kvs') = Inr r')"
    by (simp add: process_tweet_data_def)
  show ?thesis
    by (rule conjI [OF process_tweet_data_example conjI [OF general returns]])
qed

theorem process_tweet_data_defaults_witness:
  "map_of [(''tweet_id'', JStr ''1''), (''tweet_text'', JStr ''hi''),
           (''favorite_count'', JStr ''3'')] ''retweet_count'' = None \<and>
   user_field_absent [(''tweet_id'', JStr ''1''), (''tweet_text'', JStr ''hi''),
           (''favorite_count'', JStr ''3'')] ''name'' \<and>
   (\<exists>r. process_tweet_data
          (JObj [(''tweet_id'', JStr ''1''), (''tweet_text'', JStr ''hi''),
                 (''favorite_count'', JStr ''3'')]) = Inr r \<and>
        map_of r ''retweet_count'' = Some (JInt 0) \<and>
        map_of r ''user_name'' = Some (JStr [])) \<and>
   map_of [(''tweet_id'', JStr ''7'')] ''favorite_count'' = None \<and>
   (\<exists>r'. process_tweet_data (JObj [(''tweet_id'', JStr ''7'')]) = Inr r')"
  using process_tweet_data_defaults
    [of "[(''tweet_id'', JStr ''1''), (''tweet_text'', JStr ''hi''),
          (''favorite_count'', JStr ''3'')]"
        "[(''id'', JStr ''1''), (''text'', JStr ''hi''), (''timestamp'', JNull),
          (''favorite_count'', JInt 3), (''retweet_count'', JInt 0), (''reply_count'', JInt 0),
          (''quote_count'', JInt 0), (''views'', JInt 0), (''user_followers'', JInt 0),
          (''user_name'', JStr []), (''user_username'', JStr [])]"
        "[(''tweet_id'', JStr ''7'')]"]
  by (simp add: user_field_absent_def)

text \<open>
  Claim C10. The default 0 of a count is used only when the key is absent: a raw record
  whose \<^verbatim>\<open>favorite_count\<close> is \<^verbatim>\<open>null\<close> makes \<^verbatim>\<open>int\<close> raise a \<^verbatim>\<open>TypeError\<close>, one whose
  \<^verbatim>\<open>favorite_count\<close> is the string \<^verbatim>\<open>"abc"\<close> makes it raise a \<^verbatim>\<open>ValueError\<close>, so
  \<^verbatim>\<open>_process_tweet_data\<close> returns no record for them.
\<close>

theorem process_tweet_data_not_total:
  "process_tweet_data (JObj [(''favorite_count'', JNull)]) = Inl TypeError \<and>
   process_tweet_data (JObj [(''favorite_count'', JStr ''abc'')]) = Inl ValueError"
  by (simp add: process_tweet_data_def int_of_str_def max_str_digits_def strip_def is_space_def is_digit_def
      digit_val_def)


section \<open>Properties of the fetch client\<close>

declare pagination.simps [simp del]

lemma pagination_stop:
  "\<not> (py_truthy tok \<and> page < max_pages) \<Longrightarrow>
   pagination cfg up query acc tok page sent = (acc, sent)"
  by (subst pagination.simps) auto

lemma pagination_break:
  assumes "py_truthy tok" and "page < max_pages"
    and "continuation_page (requests_get up (length sent) (continuation_request cfg query tok))
         = Inl e \<or>
         continuation_page (requests_get up (length sent) (continuation_request cfg query tok))
         = Inr None"
  shows "pagination cfg up query acc tok page sent =
         (acc, sent @ [continuation_request cfg query tok])"
  using assms by (subst pagination.simps) auto

lemma pagination_next:
  assumes "py_truthy tok" and "page < max_pages"
    and "continuation_page (requests_get up (length sent) (continuation_request cfg query tok))
         = Inr (Some (new, tok'))"
  shows "pagination cfg up query acc tok page sent =
         pagination cfg up query (acc @ new) tok' (page + 1)
           (sent @ [continuation_request cfg query tok])"
  using assms by (subst pagination.simps) simp

lemma pagination_cases:
  obtains (stop) "\<not> (py_truthy tok \<and> page < max_pages)"
  | (break) "py_truthy tok" "page < max_pages"
      "pagination cfg up query acc tok page sent =
       (acc, sent @ [continuation_request cfg query tok])"
  | (continue) new tok' where "py_truthy tok" "page < max_pages"
      "continuation_page (requests_get up (length sent) (continuation_request cfg query tok))
       = Inr (Some (new, tok'))"
proof (cases "py_truthy tok \<and> page < max_pages")
  case False
  then show ?thesis by (rule stop)
next
  case True
  show ?thesis
  proof (cases "continuation_page
                  (requests_get up (length sent) (continuation_request cfg query tok))")
    case (Inl e)
    with True show ?thesis using pagination_break [of tok page up sent cfg query e acc]
      by (intro break) simp_all
  next
    case (Inr r)
    show ?thesis
    proof (cases r)
      case None
      with True Inr show ?thesis using pagination_break [of tok page up sent cfg query _ acc]
        by (intro break) simp_all
    next
      case (Some p)
      obtain new tok' where "p = (new, tok')" by (cases p)
      with True Inr Some show ?thesis by (intro continue [of new tok']) simp_all
    qed
  qed
qed

lemma pagination_sent_length:
  "length (snd (pagination cfg up query acc tok page sent))
   \<le> length sent + (max_pages - page)"
proof (induction cfg up query acc tok page sent rule: pagination.induct)
  case (1 cfg up query acc tok page sent)
  show ?case
  proof (cases rule: pagination_cases [where tok = tok and page = page and cfg = cfg
        and up = up and query = query and acc = acc and sent = sent])
    case stop
    then show ?thesis by (simp add: pagination_stop)
  next
    case break
    then show ?thesis by simp
  next
    case (continue new tok')
    from "1.IH" [OF _ continue(3) refl refl] continue(1,2)
    have "length (snd (pagination cfg up query (acc @ new) tok' (page + 1)
             (sent @ [continuation_request cfg query tok])))
          \<le> length (sent @ [continuation_request cfg query tok]) + (max_pages - (page + 1))"
      by simp
    with continue show ?thesis by (simp add: pagination_next)
  qed
qed

text \<open>
  Claim C4. Whatever the upstream answers, and in particular when every response carries
  a continuation token and results, one call of \<^verbatim>\<open>fetch_tweets\<close> issues at most 5 HTTP
  requests, the initial one included.
\<close>

theorem fetch_tweets_at_most_five_requests:
  "length (snd (fetch_tweets pd cfg up query)) \<le> 5"
proof (cases "initial_page (requests_get up 0 (search_request cfg query))")
  case (Inl e)
  then show ?thesis by (simp add: fetch_tweets_def)
next
  case (Inr p)
  obtain recs tok where p: "p = (recs, tok)" by (cases p)
  have "length (snd (pagination cfg up query recs tok 1 [search_request cfg query]))
        \<le> length [search_request cfg query] + (max_pages - 1)"
    by (rule pagination_sent_length)
  then show ?thesis
    by (auto simp add: fetch_tweets_def Inr p max_pages_def split: prod.splits)
qed


text \<open>The bound is reached: an upstream that always continues is asked five times.\<close>

lemma endless_upstream_five_requests:
  "length (snd (fetch_tweets plain_frame example_config endless_upstream (JStr ''q''))) = 5"
proof -
  have page: "continuation_page (requests_get endless_upstream n req)
              = Inr (Some ([tweet_record], JStr ''t1''))" for n req
    by (simp add: continuation_page_def requests_get_def endless_upstream_def ok_response_def
        response_json_def process_tweet_data_def raw_tweet_def tweet_record_def)
  have init: "initial_page (requests_get endless_upstream n req)
              = Inr ([tweet_record], JStr ''t1'')" for n req
    by (simp add: initial_page_def requests_get_def endless_upstream_def ok_response_def
        response_json_def process_tweet_data_def raw_tweet_def tweet_record_def)
  show ?thesis
    by (simp add: fetch_tweets_def init pagination.simps page max_pages_def)
qed

lemma pagination_prefix:
  "\<exists>rest. fst (pagination cfg up query acc tok page sent) = acc @ rest"
proof (induction cfg up query acc tok page sent rule: pagination.induct)
  case (1 cfg up query acc tok page sent)
  show ?case
  proof (cases rule: pagination_cases [where tok = tok and page = page and cfg = cfg
        and up = up and query = query and acc = acc and sent = sent])
    case stop
    then show ?thesis by (simp add: pagination_stop)
  next
    case break
    then show ?thesis by simp
  next
    case (continue new tok')
    from "1.IH" [OF _ continue(3) refl refl] continue(1,2)
    obtain rest where
      "fst (pagination cfg up query (acc @ new) tok' (page + 1)
             (sent @ [continuation_request cfg query tok])) = (acc @ new) @ rest"
      by auto
    with continue show ?thesis by (simp add: pagination_next)
  qed
qed


subsection \<open>The loop, pass by pass\<close>

lemma loop_after_Suc:
  "loop_after cfg up query (acc, tok, page, sent) (Suc k) = Some s' \<longleftrightarrow>
   (\<exists>new tok'. py_truthy tok \<and> page < max_pages \<and>
      continuation_page (requests_get up (length sent) (continuation_request cfg query tok))
        = Inr (Some (new, tok')) \<and>
      loop_after cfg up query
        (acc @ new, tok', page + 1, sent @ [continuation_request cfg query tok]) k = Some s')"
  by (auto split: if_splits sum.splits option.splits)

text \<open>The result of the loop is the result of the loop from any state it passes.\<close>

lemma loop_after_pagination:
  "loop_after cfg up query (acc, tok, page, sent) k = Some (acc', tok', page', sent') \<Longrightarrow>
   pagination cfg up query acc tok page sent = pagination cfg up query acc' tok' page' sent'"
proof (induction k arbitrary: acc tok page sent)
  case 0
  then show ?case by simp
next
  case (Suc k)
  from Suc.prems obtain new t where c: "py_truthy tok" "page < max_pages"
    "continuation_page (requests_get up (length sent) (continuation_request cfg query tok))
       = Inr (Some (new, t))"
    and rest: "loop_after cfg up query
        (acc @ new, t, page + 1, sent @ [continuation_request cfg query tok]) k
        = Some (acc', tok', page', sent')"
    unfolding loop_after_Suc by blast
  from c have "pagination cfg up query acc tok page sent =
      pagination cfg up query (acc @ new) t (page + 1)
        (sent @ [continuation_request cfg query tok])"
    by (rule pagination_next)
  with Suc.IH [OF rest] show ?case by simp
qed

text \<open>A state from which no further page is appended is where the loop ends.\<close>

lemma loop_ends_here:
  assumes "loop_after cfg up query (acc, tok, page, sent) (Suc 0) = None"
  shows "fst (pagination cfg up query acc tok page sent) = acc"
proof (cases rule: pagination_cases [where tok = tok and page = page and cfg = cfg
      and up = up and query = query and acc = acc and sent = sent])
  case stop
  then show ?thesis by (simp add: pagination_stop)
next
  case break
  then show ?thesis by simp
next
  case (continue new tok')
  with assms show ?thesis by simp
qed

lemma loop_after_step:
  "loop_after cfg up query s (Suc k) =
   (case loop_after cfg up query s k of
      None \<Rightarrow> None
    | Some s' \<Rightarrow> loop_after cfg up query s' (Suc 0))"
proof (induction k arbitrary: s)
  case 0
  then show ?case by simp
next
  case (Suc k)
  obtain acc tok page sent where s: "s = (acc, tok, page, sent)" by (cases s)
  show ?case
  proof (cases "py_truthy tok \<and> page < max_pages")
    case False
    then show ?thesis by (auto simp add: s)
  next
    case True
    show ?thesis
    proof (cases "continuation_page
                    (requests_get up (length sent) (continuation_request cfg query tok))")
      case (Inl e)
      with True show ?thesis by (simp add: s)
    next
      case (Inr r)
      show ?thesis
      proof (cases r)
        case None
        with True Inr show ?thesis by (simp add: s)
      next
        case (Some p)
        obtain new t where p: "p = (new, t)" by (cases p)
        have "loop_after cfg up query s (Suc (Suc k)) =
              loop_after cfg up query
                (acc @ new, t, page + 1, sent @ [continuation_request cfg query tok]) (Suc k)"
          using True Inr Some p by (simp add: s)
        also have "\<dots> =
            (case loop_after cfg up query
                    (acc @ new, t, page + 1, sent @ [continuation_request cfg query tok]) k of
               None \<Rightarrow> None
             | Some s' \<Rightarrow> loop_after cfg up query s' (Suc 0))"
          by (rule Suc.IH)
        also have "loop_after cfg up query
                    (acc @ new, t, page + 1, sent @ [continuation_request cfg query tok]) k
                   = loop_after cfg up query s (Suc k)"
          using True Inr Some p by (simp add: s)
        finally show ?thesis .
      qed
    qed
  qed
qed

text \<open>Every run of the loop is a number of appended pages, after which no page is appended.\<close>

lemma loop_ends:
  "\<exists>k s'. loop_after cfg up query (acc, tok, page, sent) k = Some s' \<and>
          loop_after cfg up query (acc, tok, page, sent) (Suc k) = None"
proof (induction cfg up query acc tok page sent rule: pagination.induct)
  case (1 cfg up query acc tok page sent)
  show ?case
  proof (cases "py_truthy tok \<and> page < max_pages")
    case False
    then have "loop_after cfg up query (acc, tok, page, sent) 0 = Some (acc, tok, page, sent)"
      "loop_after cfg up query (acc, tok, page, sent) (Suc 0) = None"
      by auto
    then show ?thesis by blast
  next
    case True
    show ?thesis
    proof (cases "continuation_page
                    (requests_get up (length sent) (continuation_request cfg query tok))")
      case (Inl e)
      with True
      have "loop_after cfg up query (acc, tok, page, sent) 0 = Some (acc, tok, page, sent)"
        "loop_after cfg up query (acc, tok, page, sent) (Suc 0) = None"
        by simp_all
      then show ?thesis by blast
    next
      case (Inr r)
      show ?thesis
      proof (cases r)
        case None
        with True Inr
        have "loop_after cfg up query (acc, tok, page, sent) 0 = Some (acc, tok, page, sent)"
          "loop_after cfg up query (acc, tok, page, sent) (Suc 0) = None"
          by simp_all
        then show ?thesis by blast
      next
        case (Some p)
        obtain new t where p: "p = (new, t)" by (cases p)
        let ?next = "(acc @ new, t, page + 1, sent @ [continuation_request cfg query tok])"
        from "1.IH" [OF True Inr [unfolded Some p] refl refl]
        obtain k s' where k: "loop_after cfg up query ?next k = Some s'"
          "loop_after cfg up query ?next (Suc k) = None"
          by blast
        from True Inr Some p k
        have "loop_after cfg up query (acc, tok, page, sent) (Suc k) = Some s'"
          "loop_after cfg up query (acc, tok, page, sent) (Suc (Suc k)) = None"
          by simp_all
        then show ?thesis by blast
      qed
    qed
  qed
qed

text \<open>The pages appended are never taken back.\<close>

lemma loop_after_prefix:
  "loop_after cfg up query (acc, tok, page, sent) k = Some (acc', tok', page', sent') \<Longrightarrow>
   \<exists>rest. acc' = acc @ rest"
proof (induction k arbitrary: acc tok page sent)
  case 0
  then show ?case by simp
next
  case (Suc k)
  from Suc.prems obtain new t where
    "loop_after cfg up query
        (acc @ new, t, page + 1, sent @ [continuation_request cfg query tok]) k
        = Some (acc', tok', page', sent')"
    unfolding loop_after_Suc by blast
  from Suc.IH [OF this] show ?case by auto
qed

text \<open>
  Whatever the continuation requests do, a first page with a record makes
  \<^verbatim>\<open>fetch_tweets\<close> return a frame.
\<close>

lemma fetch_tweets_returns_frame:
  assumes "initial_page (requests_get up 0 (search_request cfg query)) = Inr (recs, tok0)"
    and "recs \<noteq> []"
  shows "\<exists>rest. fst (fetch_tweets pd cfg up query) = Inr (pd (recs @ rest))"
proof -
  obtain rest where
    rest: "fst (pagination cfg up query recs tok0 1 [search_request cfg query]) = recs @ rest"
    using pagination_prefix by blast
  obtain all_tweets_data sent' where
    pg: "pagination cfg up query recs tok0 1 [search_request cfg query]
         = (all_tweets_data, sent')"
    by (cases "pagination cfg up query recs tok0 1 [search_request cfg query]")
  from rest pg have "all_tweets_data = recs @ rest" by simp
  with assms pg have "fst (fetch_tweets pd cfg up query) = Inr (pd (recs @ rest))"
    by (simp add: fetch_tweets_def)
  then show ?thesis ..
qed

text \<open>
  Claim C3. Let the initial request succeed with at least one record, let \<open>k\<close>
  continuation pages be appended, and let the next continuation request fail, by an
  exception anywhere in the inner \<^verbatim>\<open>try\<close> or by a status other than 200. Then
  \<^verbatim>\<open>fetch_tweets\<close> raises nothing: it returns the frame of exactly the records collected up
  to that point, the first page and the \<open>k\<close> appended pages, and the failed request is
  the last one it issues.
\<close>

theorem fetch_tweets_partial_success:
  assumes "initial_page (requests_get up 0 (search_request cfg query)) = Inr (recs, tok0)"
    and "recs \<noteq> []"
    and "loop_after cfg up query (recs, tok0, 1, [search_request cfg query]) k
         = Some (acc, tok, page, sent)"
    and "py_truthy tok" and "page < max_pages"
    and "(\<exists>e. continuation_page
                (requests_get up (length sent) (continuation_request cfg query tok)) = Inl e) \<or>
         (\<exists>r. up (length sent) (continuation_request cfg query tok) = Some r \<and>
              status_code r \<noteq> 200)"
  shows "fetch_tweets pd cfg up query =
         (Inr (pd acc), sent @ [continuation_request cfg query tok])"
proof -
  let ?req = "continuation_request cfg query tok"
  from assms(6)
  have "continuation_page (requests_get up (length sent) ?req) = Inr None \<or>
        (\<exists>e. continuation_page (requests_get up (length sent) ?req) = Inl e)"
    by (auto simp add: continuation_page_def requests_get_def)
  with assms(4,5) have stop: "pagination cfg up query acc tok page sent = (acc, sent @ [?req])"
    by (auto simp add: pagination_break)
  from loop_after_pagination [OF assms(3)] stop
  have pg: "pagination cfg up query recs tok0 1 [search_request cfg query]
            = (acc, sent @ [?req])"
    by simp
  from loop_after_prefix [OF assms(3)] assms(2) have "acc \<noteq> []" by auto
  with assms(1) pg show ?thesis by (simp add: fetch_tweets_def)
qed

lemma raw_tweet_normalised:
  "process_tweet_data raw_tweet = Inr tweet_record"
  "process_tweet_data raw_tweet2 = Inr tweet_record2"
  by (simp_all add: process_tweet_data_def raw_tweet_def tweet_record_def raw_tweet2_def
      tweet_record2_def)

theorem fetch_tweets_partial_success_witness:
  "initial_page (requests_get third_page_fails 0 (search_request example_config (JStr ''q'')))
     = Inr ([tweet_record], JStr ''t1'') \<and>
   [tweet_record] \<noteq> [] \<and>
   loop_after example_config third_page_fails (JStr ''q'')
     ([tweet_record], JStr ''t1'', 1, [search_request example_config (JStr ''q'')]) 1
     = Some ([tweet_record, tweet_record2], JStr ''t2'', 2,
             [search_request example_config (JStr ''q''),
              continuation_request example_config (JStr ''q'') (JStr ''t1'')]) \<and>
   py_truthy (JStr ''t2'') \<and> 2 < max_pages \<and>
   (\<exists>r. third_page_fails 2 (continuation_request example_config (JStr ''q'') (JStr ''t2''))
          = Some r \<and> status_code r \<noteq> 200) \<and>
   fetch_tweets plain_frame example_config third_page_fails (JStr ''q'') =
   (Inr (plain_frame [tweet_record, tweet_record2]),
    [search_request example_config (JStr ''q''),
     continuation_request example_config (JStr ''q'') (JStr ''t1''),
     continuation_request example_config (JStr ''q'') (JStr ''t2'')])"
proof -
  have init: "initial_page
      (requests_get third_page_fails 0 (search_request example_config (JStr ''q'')))
     = Inr ([tweet_record], JStr ''t1'')"
    by (simp add: initial_page_def requests_get_def third_page_fails_def ok_response_def
        response_json_def raw_tweet_normalised)
  have reach: "loop_after example_config third_page_fails (JStr ''q'')
     ([tweet_record], JStr ''t1'', 1, [search_request example_config (JStr ''q'')]) 1
     = Some ([tweet_record, tweet_record2], JStr ''t2'', 2,
             [search_request example_config (JStr ''q''),
              continuation_request example_config (JStr ''q'') (JStr ''t1'')])"
    by (simp add: max_pages_def continuation_page_def requests_get_def third_page_fails_def
        ok_response_def response_json_def raw_tweet_normalised)
  have fails: "(\<exists>e. continuation_page
       (requests_get third_page_fails
          (length [search_request example_config (JStr ''q''),
                   continuation_request example_config (JStr ''q'') (JStr ''t1'')])
          (continuation_request example_config (JStr ''q'') (JStr ''t2''))) = Inl e) \<or>
     (\<exists>r. third_page_fails
          (length [search_request example_config (JStr ''q''),
                   continuation_request example_config (JStr ''q'') (JStr ''t1'')])
          (continuation_request example_config (JStr ''q'') (JStr ''t2'')) = Some r \<and>
        status_code r \<noteq> 200)"
    by (simp add: third_page_fails_def)
  have "fetch_tweets plain_frame example_config third_page_fails (JStr ''q'') =
   (Inr (plain_frame [tweet_record, tweet_record2]),
    [search_request example_config (JStr ''q''),
     continuation_request example_config (JStr ''q'') (JStr ''t1'')] @
    [continuation_request example_config (JStr ''q'') (JStr ''t2'')])"
    by (rule fetch_tweets_partial_success [OF init _ reach _ _ fails])
       (simp_all add: max_pages_def)
  with init reach show ?thesis
    by (simp add: max_pages_def third_page_fails_def)
qed

subsection \<open>Which exceptions the first page can raise\<close>

lemma bind_exc_not_raised:
  "m \<noteq> Inl E \<Longrightarrow> (\<And>x. f x \<noteq> Inl E) \<Longrightarrow> bind_exc m f \<noteq> Inl E"
  by (cases m) simp_all

lemma if_not_raised:
  "(c \<Longrightarrow> a \<noteq> Inl E) \<Longrightarrow> (\<not> c \<Longrightarrow> b \<noteq> Inl E) \<Longrightarrow> (if c then a else b) \<noteq> Inl E"
  by simp

lemma dict_get_not_ntf: "dict_get j k d \<noteq> Inl NoTweetsFound"
  by (cases j) simp_all

lemma py_keys_not_ntf: "py_keys j \<noteq> Inl NoTweetsFound"
  by (cases j) simp_all

lemma py_len_not_ntf: "py_len j \<noteq> Inl NoTweetsFound"
  by (cases j) simp_all

lemma py_iter_not_ntf: "py_iter j \<noteq> Inl NoTweetsFound"
  by (cases j) simp_all

lemma int_of_str_not_ntf: "int_of_str s \<noteq> Inl NoTweetsFound"
proof -
  have opt: "(case x of None \<Rightarrow> Inl ValueError
              | Some i \<Rightarrow> if b then Inl ValueError else Inr i) \<noteq> Inl NoTweetsFound"
    for x :: "int option" and b
    by (cases x) simp_all
  show ?thesis
    unfolding int_of_str_def by (cases "strip s") (simp_all add: opt del: parse_digits.simps)
qed

lemma py_int_not_ntf: "py_int j \<noteq> Inl NoTweetsFound"
proof (cases j)
  case (JNonFinite x)
  then show ?thesis by (cases x) simp_all
qed (simp_all add: int_of_str_not_ntf)


lemma process_tweet_data_not_ntf: "process_tweet_data t \<noteq> Inl NoTweetsFound"
  unfolding process_tweet_data_def
  by (intro bind_exc_not_raised dict_get_not_ntf py_int_not_ntf) simp_all


lemma map_exc_not_raised:
  "(\<And>x. f x \<noteq> Inl E) \<Longrightarrow> map_exc f xs \<noteq> Inl E"
  by (induction xs) (simp_all add: bind_exc_not_raised)

lemma requests_get_not_ntf: "requests_get up n req \<noteq> Inl NoTweetsFound"
  by (simp add: requests_get_def split: option.splits)

lemma response_json_not_ntf: "response_json r \<noteq> Inl NoTweetsFound"
  by (simp add: response_json_def split: option.splits)

lemma initial_page_not_ntf:
  "initial_page (requests_get up n req) \<noteq> Inl NoTweetsFound"
  unfolding initial_page_def
  by (intro bind_exc_not_raised if_not_raised requests_get_not_ntf response_json_not_ntf
      py_keys_not_ntf dict_get_not_ntf py_len_not_ntf py_iter_not_ntf map_exc_not_raised
      process_tweet_data_not_ntf) simp_all

text \<open>
  Claim C5. \<^verbatim>\<open>fetch_tweets\<close> raises the "No tweets found in the response" exception
  exactly when the initial request has succeeded and the pagination loop has ended with
  no record collected: zero records give this error, and no other path raises it.
\<close>

theorem fetch_tweets_no_tweets_found:
  "fst (fetch_tweets pd cfg up query) = Inl NoTweetsFound \<longleftrightarrow>
   (\<exists>recs tok.
      initial_page (requests_get up 0 (search_request cfg query)) = Inr (recs, tok) \<and>
      fst (pagination cfg up query recs tok 1 [search_request cfg query]) = [])"
proof (cases "initial_page (requests_get up 0 (search_request cfg query))")
  case (Inl e)
  with initial_page_not_ntf [of up 0 "search_request cfg query"]
  show ?thesis by (simp add: fetch_tweets_def)
next
  case (Inr p)
  obtain recs tok where p: "p = (recs, tok)" by (cases p)
  obtain all_tweets_data sent' where
    pg: "pagination cfg up query recs tok 1 [search_request cfg query]
         = (all_tweets_data, sent')"
    by (cases "pagination cfg up query recs tok 1 [search_request cfg query]")
  show ?thesis using pg by (simp add: fetch_tweets_def Inr p)
qed

theorem fetch_tweets_no_tweets_found_witness:
  "initial_page (requests_get empty_upstream 0 (search_request example_config (JStr ''q'')))
     = Inr ([], JNull) \<and>
   fst (pagination example_config empty_upstream (JStr ''q'') [] JNull 1
          [search_request example_config (JStr ''q'')]) = [] \<and>
   fst (fetch_tweets plain_frame example_config empty_upstream (JStr ''q'')) = Inl NoTweetsFound"
  using fetch_tweets_no_tweets_found [of plain_frame example_config empty_upstream "JStr ''q''"]
  by (simp add: initial_page_def requests_get_def empty_upstream_def ok_response_def
      response_json_def pagination_stop)



subsection \<open>No deduplication\<close>

lemma process_tweet_data_id:
  assumes "process_tweet_data t = Inr r"
  shows "map_of r ''id'' = Some (raw_id t)"
proof -
  from assms obtain v where v: "dict_get t ''tweet_id'' JNull = Inr v"
    unfolding process_tweet_data_def bind_exc_eq_Inr by blast
  with assms obtain rest where "r = (''id'', v) # rest"
    unfolding process_tweet_data_def bind_exc_eq_Inr by auto
  with v show ?thesis by (simp add: raw_id_def)
qed

lemma map_exc_process_ids:
  "map_exc process_tweet_data ts = Inr recs \<Longrightarrow>
   map (\<lambda>r. map_of r ''id'') recs = map (\<lambda>t. Some (raw_id t)) ts"
proof (induction ts arbitrary: recs)
  case Nil
  then show ?case by simp
next
  case (Cons t ts)
  from Cons.prems obtain r rs where
    r: "process_tweet_data t = Inr r" and rs: "map_exc process_tweet_data ts = Inr rs"
    and recs: "recs = r # rs"
    by (auto simp add: bind_exc_eq_Inr)
  from Cons.IH [OF rs] process_tweet_data_id [OF r] recs show ?case by simp
qed

lemma initial_page_ids:
  assumes "initial_page (requests_get up n req) = Inr (recs, tok)"
  shows "map (\<lambda>r. map_of r ''id'') recs = map (\<lambda>t. Some (raw_id t)) (page_results (up n req))"
proof -
  from assms obtain response where resp: "up n req = Some response"
    by (cases "up n req") (simp_all add: initial_page_def requests_get_def)
  from assms resp obtain data where data: "body_json response = Some data"
    by (cases "body_json response")
       (simp_all add: initial_page_def requests_get_def response_json_def split: if_splits)
  from assms resp data obtain ts where
    ts: "bind_exc (dict_get data ''results'' (JList [])) py_iter = Inr ts"
    and m: "map_exc process_tweet_data ts = Inr recs"
    by (auto simp add: initial_page_def requests_get_def response_json_def bind_exc_eq_Inr
        split: if_splits)
  from resp data ts have "page_results (up n req) = ts"
    by (simp add: page_results_def)
  with map_exc_process_ids [OF m] show ?thesis by simp
qed

lemma continuation_page_ids:
  assumes "continuation_page (requests_get up n req) = Inr (Some (recs, tok))"
  shows "map (\<lambda>r. map_of r ''id'') recs = map (\<lambda>t. Some (raw_id t)) (page_results (up n req))"
proof -
  from assms obtain response where resp: "up n req = Some response"
    by (cases "up n req") (simp_all add: continuation_page_def requests_get_def)
  from assms resp obtain data where data: "body_json response = Some data"
    by (cases "body_json response")
       (simp_all add: continuation_page_def requests_get_def response_json_def split: if_splits)
  from assms resp data obtain ts where
    ts: "bind_exc (dict_get data ''results'' (JList [])) py_iter = Inr ts"
    and m: "map_exc process_tweet_data ts = Inr recs"
    by (auto simp add: continuation_page_def requests_get_def response_json_def bind_exc_eq_Inr
        split: if_splits)
  from resp data ts have "page_results (up n req) = ts"
    by (simp add: page_results_def)
  with map_exc_process_ids [OF m] show ?thesis by simp
qed




lemma loop_after_trace:
  "loop_after cfg up query (acc, tok, page, sent) k = Some (acc', tok', page', sent') \<Longrightarrow>
   length sent' = length sent + k \<and> take (length sent) sent' = sent \<and>
   map (\<lambda>r. map_of r ''id'') acc' =
   map (\<lambda>r. map_of r ''id'') acc @
   map (\<lambda>t. Some (raw_id t))
     (concat (map (\<lambda>j. page_results (up j (sent' ! j))) [length sent..<length sent + k]))"
proof (induction k arbitrary: acc tok page sent)
  case 0
  then show ?case by simp
next
  case (Suc k)
  let ?req = "continuation_request cfg query tok"
  from Suc.prems obtain new t where
    page: "continuation_page (requests_get up (length sent) ?req) = Inr (Some (new, t))"
    and rest: "loop_after cfg up query (acc @ new, t, page + 1, sent @ [?req]) k
               = Some (acc', tok', page', sent')"
    unfolding loop_after_Suc by blast
  from Suc.IH [OF rest]
  have len: "length sent' = length (sent @ [?req]) + k"
    and tk: "take (length (sent @ [?req])) sent' = sent @ [?req]"
    and ids: "map (\<lambda>r. map_of r ''id'') acc' =
       map (\<lambda>r. map_of r ''id'') (acc @ new) @
       map (\<lambda>t. Some (raw_id t))
         (concat (map (\<lambda>j. page_results (up j (sent' ! j)))
            [length (sent @ [?req])..<length (sent @ [?req]) + k]))"
    by blast+
  from tk have "take (length sent) (take (length (sent @ [?req])) sent') = sent" by simp
  then have tk': "take (length sent) sent' = sent" by (simp add: min_def)
  from tk have "(take (length (sent @ [?req])) sent') ! length sent = ?req" by simp
  then have nth: "sent' ! length sent = ?req" by simp
  have upt: "[length sent..<length sent + Suc k]
             = length sent # [length (sent @ [?req])..<length (sent @ [?req]) + k]"
    by (simp add: upt_conv_Cons)
  from continuation_page_ids [OF page]
  have new: "map (\<lambda>r. map_of r ''id'') new =
             map (\<lambda>t. Some (raw_id t)) (page_results (up (length sent) ?req))" .
  have "map (\<lambda>r. map_of r ''id'') acc' =
       map (\<lambda>r. map_of r ''id'') acc @
       map (\<lambda>t. Some (raw_id t))
         (concat (map (\<lambda>j. page_results (up j (sent' ! j)))
            [length sent..<length sent + Suc k]))"
    unfolding upt using ids new nth by simp
  with len tk' show ?case by simp
qed

lemma record_ids_raw:
  "map (\<lambda>r. map_of r ''id'') recs = map (\<lambda>t. Some (raw_id t)) ts \<Longrightarrow>
   record_ids recs = map raw_id ts"
proof (induction recs arbitrary: ts)
  case Nil
  then show ?case by (simp add: record_ids_def)
next
  case (Cons r recs)
  then obtain t ts' where ts: "ts = t # ts'" by (cases ts) auto
  with Cons.prems have "map_of r ''id'' = Some (raw_id t)"
    and "map (\<lambda>r. map_of r ''id'') recs = map (\<lambda>t. Some (raw_id t)) ts'"
    by simp_all
  with Cons.IH [of ts'] ts show ?case by (simp add: record_ids_def)
qed

text \<open>
  The frame of a fetch after which exactly \<open>k\<close> continuation pages were appended: it is
  built from the records of the first page and of those \<open>k\<close> pages, one record for each
  raw result, in order.
\<close>

lemma fetch_tweets_after_pages:
  assumes init: "initial_page (requests_get up 0 (search_request cfg query)) = Inr (recs, tok0)"
    and reach: "loop_after cfg up query (recs, tok0, 1, [search_request cfg query]) k
                = Some (acc, tok, page, sent)"
    and last: "loop_after cfg up query (recs, tok0, 1, [search_request cfg query]) (Suc k)
               = None"
  shows "fst (pagination cfg up query recs tok0 1 [search_request cfg query]) = acc"
    and "length sent = Suc k"
    and "record_ids acc =
         map raw_id (concat (map (\<lambda>j. page_results (up j (sent ! j))) [0..<Suc k]))"
proof -
  let ?req = "search_request cfg query"
  have "loop_after cfg up query (recs, tok0, 1, [?req]) (Suc k)
        = loop_after cfg up query (acc, tok, page, sent) (Suc 0)"
    by (simp only: loop_after_step [of cfg up query "(recs, tok0, 1, [?req])" k] reach
        option.case)
  with last have "loop_after cfg up query (acc, tok, page, sent) (Suc 0) = None"
    by (simp only:)
  then have "fst (pagination cfg up query acc tok page sent) = acc"
    by (rule loop_ends_here)
  with loop_after_pagination [OF reach]
  show "fst (pagination cfg up query recs tok0 1 [?req]) = acc" by simp
  from loop_after_trace [OF reach]
  have len: "length sent = length [?req] + k" and tk: "take (length [?req]) sent = [?req]"
    and ids: "map (\<lambda>r. map_of r ''id'') acc =
       map (\<lambda>r. map_of r ''id'') recs @
       map (\<lambda>t. Some (raw_id t))
         (concat (map (\<lambda>j. page_results (up j (sent ! j)))
            [length [?req]..<length [?req] + k]))"
    by blast+
  from len show "length sent = Suc k" by simp
  from tk have "take (length [?req]) sent ! 0 = ?req" by simp
  then have nth: "sent ! 0 = ?req" by simp
  have upt: "[0..<Suc k] = 0 # [length [?req]..<length [?req] + k]"
    by (simp add: upt_conv_Cons)
  have "map (\<lambda>r. map_of r ''id'') acc =
        map (\<lambda>t. Some (raw_id t))
          (concat (map (\<lambda>j. page_results (up j (sent ! j))) [0..<Suc k]))"
    unfolding upt using ids initial_page_ids [OF init] nth by simp
  then show "record_ids acc =
         map raw_id (concat (map (\<lambda>j. page_results (up j (sent ! j))) [0..<Suc k]))"
    by (rule record_ids_raw)
qed

lemma repeating_upstream_fetch:
  "fetch_tweets plain_frame example_config repeating_upstream (JStr ''q'') =
   (Inr (plain_frame [tweet_record, tweet_record]),
    [search_request example_config (JStr ''q''),
     continuation_request example_config (JStr ''q'') (JStr ''t1'')])"
proof -
  have init: "initial_page (requests_get repeating_upstream 0
                (search_request example_config (JStr ''q''))) = Inr ([tweet_record], JStr ''t1'')"
    by (simp add: initial_page_def requests_get_def repeating_upstream_def ok_response_def
        response_json_def raw_tweet_normalised)
  have cont: "continuation_page (requests_get repeating_upstream
                (length [search_request example_config (JStr ''q'')])
                (continuation_request example_config (JStr ''q'') (JStr ''t1'')))
              = Inr (Some ([tweet_record], JNull))"
    by (simp add: continuation_page_def requests_get_def repeating_upstream_def ok_response_def
        response_json_def raw_tweet_normalised)
  have "pagination example_config repeating_upstream (JStr ''q'') [tweet_record] (JStr ''t1'') 1
          [search_request example_config (JStr ''q'')] =
        pagination example_config repeating_upstream (JStr ''q'') ([tweet_record] @ [tweet_record])
          JNull (1 + 1)
          ([search_request example_config (JStr ''q'')] @
           [continuation_request example_config (JStr ''q'') (JStr ''t1'')])"
    by (rule pagination_next [OF _ _ cont]) (simp_all add: max_pages_def)
  also have "\<dots> = ([tweet_record] @ [tweet_record],
          [search_request example_config (JStr ''q'')] @
           [continuation_request example_config (JStr ''q'') (JStr ''t1'')])"
    by (rule pagination_stop) simp
  finally show ?thesis
    by (simp add: fetch_tweets_def init)
qed

lemma repeating_upstream_ids:
  "record_ids [tweet_record, tweet_record] = [JStr ''1'', JStr ''1'']"
  "column (plain_frame [tweet_record, tweet_record]) ''id'' = [JStr ''1'', JStr ''1'']"
  by (simp_all add: record_ids_def column_def plain_frame_def first_seen_def tweet_record_def
      cell_def)

text \<open>
  Claim C2, as stated, fails: \<^verbatim>\<open>fetch_tweets\<close> appends every page to the list and never
  compares ids. When the upstream sends the same raw tweet on the first page and on the
  continuation page, the list handed to \<^verbatim>\<open>pd.DataFrame\<close> holds two records with the id
  \<^verbatim>\<open>"1"\<close>, and so does the \<^verbatim>\<open>id\<close> column of the frame (a column of strings, which the
  constructor keeps as they are).
\<close>

theorem fetch_tweets_dedup_counterexample:
  "fetch_tweets plain_frame example_config repeating_upstream (JStr ''q'') =
   (Inr (plain_frame [tweet_record, tweet_record]),
    [search_request example_config (JStr ''q''),
     continuation_request example_config (JStr ''q'') (JStr ''t1'')]) \<and>
   record_ids [tweet_record, tweet_record] = [JStr ''1'', JStr ''1''] \<and>
   \<not> distinct (record_ids [tweet_record, tweet_record]) \<and>
   \<not> distinct (column (plain_frame [tweet_record, tweet_record]) ''id'')"
  by (simp add: repeating_upstream_fetch repeating_upstream_ids)

text \<open>
  Claim C2, amended. Every frame that \<^verbatim>\<open>fetch_tweets\<close> returns is built by \<^verbatim>\<open>pd.DataFrame\<close>
  from one record for each raw result of each page that was appended, in upstream order
  and with duplicates kept. With \<open>k\<close> the number of continuation pages appended (the
  loop appends \<open>k\<close> pages and no page after them), the requests of those pages and of the
  first are the \<open>k + 1\<close> requests of \<open>sent\<close>, and the \<^verbatim>\<open>id\<close>s of the records are the
  \<^verbatim>\<open>tweet_id\<close>s of the raw results of their answers, page after page. So the ids are
  unique exactly when the upstream's are, within and across those pages.
\<close>

theorem fetch_tweets_keeps_duplicates:
  assumes "fetch_tweets pd cfg up query = (Inr df, sent')"
  shows "\<exists>recs tok0 k acc tok page sent.
           initial_page (requests_get up 0 (search_request cfg query)) = Inr (recs, tok0) \<and>
           loop_after cfg up query (recs, tok0, 1, [search_request cfg query]) k
             = Some (acc, tok, page, sent) \<and>
           loop_after cfg up query (recs, tok0, 1, [search_request cfg query]) (Suc k) = None \<and>
           df = pd acc \<and>
           length sent = Suc k \<and>
           record_ids acc =
           map raw_id (concat (map (\<lambda>j. page_results (up j (sent ! j))) [0..<Suc k]))"
proof -
  let ?req = "search_request cfg query"
  from assms obtain recs tok0 where
    init: "initial_page (requests_get up 0 ?req) = Inr (recs, tok0)"
    by (cases "initial_page (requests_get up 0 ?req)") (auto simp add: fetch_tweets_def)
  from loop_ends [of cfg up query recs tok0 1 "[?req]"] obtain k s' where
    "loop_after cfg up query (recs, tok0, 1, [?req]) k = Some s'"
    and last: "loop_after cfg up query (recs, tok0, 1, [?req]) (Suc k) = None"
    by blast
  then obtain acc tok page sent where
    reach: "loop_after cfg up query (recs, tok0, 1, [?req]) k = Some (acc, tok, page, sent)"
    by (cases s') auto
  note after = fetch_tweets_after_pages [OF init reach last]
  obtain all_tweets_data sent'' where
    pg: "pagination cfg up query recs tok0 1 [?req] = (all_tweets_data, sent'')"
    by (cases "pagination cfg up query recs tok0 1 [?req]")
  with after(1) have "all_tweets_data = acc" by simp
  with assms init pg have "df = pd acc"
    by (auto simp add: fetch_tweets_def split: if_splits)
  with init reach last after(2,3) show ?thesis by blast
qed

theorem fetch_tweets_keeps_duplicates_witness:
  "fetch_tweets plain_frame example_config repeating_upstream (JStr ''q'') =
   (Inr (plain_frame [tweet_record, tweet_record]),
    [search_request example_config (JStr ''q''),
     continuation_request example_config (JStr ''q'') (JStr ''t1'')]) \<and>
   (\<exists>recs tok0 k acc tok page sent.
      initial_page (requests_get repeating_upstream 0
        (search_request example_config (JStr ''q''))) = Inr (recs, tok0) \<and>
      loop_after example_config repeating_upstream (JStr ''q'')
        (recs, tok0, 1, [search_request example_config (JStr ''q'')]) k
        = Some (acc, tok, page, sent) \<and>
      loop_after example_config repeating_upstream (JStr ''q'')
        (recs, tok0, 1, [search_request example_config (JStr ''q'')]) (Suc k) = None \<and>
      plain_frame [tweet_record, tweet_record] = plain_frame acc \<and>
      length sent = Suc k \<and>
      record_ids acc =
      map raw_id (concat (map (\<lambda>j. page_results (repeating_upstream j (sent ! j)))
        [0..<Suc k])))"
  by (rule conjI [OF repeating_upstream_fetch
        fetch_tweets_keeps_duplicates [OF repeating_upstream_fetch]])

section \<open>Properties of the aggregator\<close>

lemma value_counts_empty:
  assumes "value_counts cells = Inr lang_counts" and "lang_counts \<noteq> []"
  shows "cells \<noteq> []"
  using assms by (auto simp add: value_counts_def split: if_splits)

lemma language_entry_divides:
  "0 < n \<Longrightarrow> language_entry n lc \<noteq> Inl ZeroDivisionError"
  by (simp add: language_entry_def true_div_def)

text \<open>
  Claim C9. For a frame without rows \<^verbatim>\<open>calculate_language_stats\<close> returns the empty
  language list: either the column is missing, or \<^verbatim>\<open>value_counts\<close> is empty and the loop
  body, which holds the only division, never runs. More generally the function never
  raises \<^verbatim>\<open>ZeroDivisionError\<close>: a language with a count exists only in a frame with rows.
\<close>

theorem calculate_language_stats_empty:
  "(rows df = [] \<longrightarrow> calculate_language_stats df = Inr [(''languages'', JList [])]) \<and>
   calculate_language_stats df \<noteq> Inl ZeroDivisionError"
proof (rule conjI)
  show "rows df = [] \<longrightarrow> calculate_language_stats df = Inr [(''languages'', JList [])]"
    by (simp add: calculate_language_stats_def column_def value_counts_def)
next
  show "calculate_language_stats df \<noteq> Inl ZeroDivisionError"
  proof (cases "''original_lang'' \<in> set (columns df)")
    case False
    then show ?thesis by (simp add: calculate_language_stats_def)
  next
    case True
    show ?thesis
    proof (cases "value_counts (column df ''original_lang'')")
      case (Inl e)
      then have "e = TypeError" by (simp add: value_counts_def split: if_splits)
      with Inl True show ?thesis by (simp add: calculate_language_stats_def)
    next
      case (Inr lang_counts)
      show ?thesis
      proof (cases "lang_counts = []")
        case True
        with Inr \<open>''original_lang'' \<in> set (columns df)\<close> show ?thesis
          by (simp add: calculate_language_stats_def)
      next
        case False
        from value_counts_empty [OF Inr False] have "0 < length (rows df)"
          by (simp add: column_def)
        then have "map_exc (language_entry (length (rows df))) lang_counts
                   \<noteq> Inl ZeroDivisionError"
          by (intro map_exc_not_raised language_entry_divides)
        with Inr True show ?thesis
          by (cases "map_exc (language_entry (length (rows df))) lang_counts")
             (simp_all add: calculate_language_stats_def)
      qed
    qed
  qed
qed

theorem calculate_language_stats_empty_witness:
  "rows empty_frame = [] \<and> ''original_lang'' \<in> set (columns empty_frame) \<and>
   calculate_language_stats empty_frame = Inr [(''languages'', JList [])]"
  using calculate_language_stats_empty [of empty_frame]
  by (simp add: empty_frame_def)

subsection \<open>Rounding to a double\<close>

lemma round_half_even_near: "\<bar>of_int (round_half_even x) - x\<bar> \<le> 1 / 2"
proof -
  have "of_int \<lfloor>x\<rfloor> \<le> x" and "x < of_int \<lfloor>x\<rfloor> + 1" by linarith+
  then show ?thesis by (auto simp add: round_half_even_def)
qed

lemma round_half_even_nonneg: "0 \<le> x \<Longrightarrow> 0 \<le> round_half_even x"
  by (auto simp add: round_half_even_def)

lemma bitlen_powi:
  assumes "0 < (n :: int)"
  shows "(2 :: rat) powi (bitlen n - 1) \<le> of_int n" and "of_int n < (2 :: rat) powi bitlen n"
proof -
  from bitlen_bounds [OF assms]
  have lo: "2 ^ nat (bitlen n - 1) \<le> n" and hi: "n < 2 ^ nat (bitlen n)" by simp_all
  have pos: "1 \<le> bitlen n"
  proof (rule ccontr)
    assume "\<not> 1 \<le> bitlen n"
    then have "nat (bitlen n) = 0" by simp
    with hi assms show False by simp
  qed
  from lo have "(of_int (2 ^ nat (bitlen n - 1)) :: rat) \<le> of_int n"
    by (simp only: of_int_le_iff)
  with pos show "(2 :: rat) powi (bitlen n - 1) \<le> of_int n"
    by (simp add: power_int_def)
  from hi have "(of_int n :: rat) < of_int (2 ^ nat (bitlen n))"
    by (simp only: of_int_less_iff)
  with pos show "of_int n < (2 :: rat) powi bitlen n"
    by (simp add: power_int_def)
qed

lemma ilog2_bounds:
  assumes "0 < x"
  shows "2 powi ilog2 x \<le> x" and "x < 2 powi (ilog2 x + 1)"
proof -
  obtain p q where pq: "quotient_of x = (p, q)" by (cases "quotient_of x")
  then have q: "0 < q" and x: "x = of_int p / of_int q"
    by (rule quotient_of_denom_pos, rule quotient_of_div)
  from assms q x have p: "0 < p" by (simp add: zero_less_divide_iff)
  let ?a = "bitlen p" and ?b = "bitlen q"
  let ?d = "?a - ?b"
  note P = bitlen_powi [OF p] and Q = bitlen_powi [OF q]
  have pw: "(0 :: rat) < 2 powi k" for k by simp
  have "x < 2 powi ?a / 2 powi (?b - 1)"
    unfolding x using P(2) Q(1) q p pw [of "?b - 1"]
    by (intro frac_less) simp_all
  also have "\<dots> = 2 powi (?d + 1)"
    by (simp add: power_int_diff [symmetric] algebra_simps)
  finally have hi: "x < 2 powi (?d + 1)" .
  have "2 powi (?a - 1) / 2 powi ?b < x"
    unfolding x using P(1) Q(2) q p pw [of "?a - 1"]
    by (intro frac_less2) simp_all
  moreover have "2 powi (?a - 1) / (2 :: rat) powi ?b = 2 powi (?d - 1)"
    by (simp add: power_int_diff [symmetric] algebra_simps)
  ultimately have lo: "2 powi (?d - 1) < x" by simp
  have e: "ilog2 x = (if 2 powi ?d \<le> x then ?d else ?d - 1)"
    by (simp add: ilog2_def pq Let_def)
  show "2 powi ilog2 x \<le> x"
    using lo by (simp add: e)
  show "x < 2 powi (ilog2 x + 1)"
    using hi by (auto simp add: e)
qed

lemma fl_nonneg: "0 \<le> x \<Longrightarrow> 0 \<le> fl x"
  by (simp add: fl_def round_half_even_nonneg)

text \<open>
  The error of one rounding: half a unit in the last place, which is at most the value
  divided by \<open>2 ^ 53\<close>, or, for a subnormal result, \<open>2 ^ - 1075\<close>.
\<close>

lemma fl_near:
  assumes "0 \<le> x"
  shows "\<bar>fl x - x\<bar> \<le> x / 2 ^ 53 + 1 / 2 ^ 1075"
proof (cases "x = 0")
  case True
  then show ?thesis by (simp add: fl_def)
next
  case False
  with assms have pos: "0 < x" by simp
  let ?e = "max (ilog2 x) (- 1022)"
  let ?ulp = "(2 :: rat) powi (?e - 52)"
  have ulp: "0 < ?ulp" by simp
  have fl: "fl x = of_int (round_half_even (x / ?ulp)) * ?ulp"
    using pos by (simp add: fl_def)
  have "\<bar>of_int (round_half_even (x / ?ulp)) - x / ?ulp\<bar> \<le> 1 / 2"
    by (rule round_half_even_near)
  then have "\<bar>of_int (round_half_even (x / ?ulp)) - x / ?ulp\<bar> * ?ulp \<le> 1 / 2 * ?ulp"
    using ulp by (intro mult_right_mono) simp_all
  moreover have "\<bar>of_int (round_half_even (x / ?ulp)) - x / ?ulp\<bar> * ?ulp = \<bar>fl x - x\<bar>"
  proof -
    have "\<bar>of_int (round_half_even (x / ?ulp)) - x / ?ulp\<bar> * ?ulp
          = \<bar>(of_int (round_half_even (x / ?ulp)) - x / ?ulp) * ?ulp\<bar>"
      using ulp by (simp add: abs_mult)
    also have "(of_int (round_half_even (x / ?ulp)) - x / ?ulp) * ?ulp = fl x - x"
      using ulp by (simp add: fl left_diff_distrib)
    finally show ?thesis .
  qed
  ultimately have half: "\<bar>fl x - x\<bar> \<le> ?ulp / 2" by simp
  have "?ulp / 2 \<le> x / 2 ^ 53 + 1 / 2 ^ 1075"
  proof (cases "- 1022 \<le> ilog2 x")
    case True
    then have "?ulp / 2 = 2 powi ilog2 x / 2 ^ 53"
      by (simp add: max_def power_int_diff)
    also have "\<dots> \<le> x / 2 ^ 53"
      using ilog2_bounds(1) [OF pos] by (simp add: divide_right_mono)
    finally show ?thesis using pos by simp
  next
    case False
    then have "?ulp / 2 = 1 / 2 ^ 1075"
      by (simp add: max_def power_int_def nat_diff_distrib divide_simps del: power_eq_0_iff)
    with pos show ?thesis by simp
  qed
  with half show ?thesis by linarith
qed




subsection \<open>One percentage\<close>

lemma unit_roundoff:
  "(1 :: rat) / 2 ^ 53 \<le> 12 / 100000000000000000"
  "(1 :: rat) / 2 ^ 1075 \<le> 1 / 100000000000000000"
  by simp_all

lemma percentage_near:
  fixes c n :: nat
  assumes "0 < n" and "c \<le> n"
  shows "fl (of_nat c / of_nat n) < 2 ^ 1024"
    and "fl (fl (of_nat c / of_nat n) * 100) < 2 ^ 1024"
    and "\<bar>py_round1 (fl (fl (of_nat c / of_nat n) * 100)) - of_nat c / of_nat n * 100\<bar>
         \<le> 1 / 20 + 1 / 10 ^ 13"
proof -
  define u :: rat where "u = 1 / 2 ^ 53"
  define t :: rat where "t = 1 / 2 ^ 1075"
  have u: "0 \<le> u" "u \<le> 12 / 100000000000000000"
    and t: "0 \<le> t" "t \<le> 1 / 100000000000000000"
    using unit_roundoff by (simp_all add: u_def t_def)
  define a :: rat where "a = of_nat c / of_nat n"
  define q where "q = fl a"
  define y where "y = fl (q * 100)"
  define r :: rat where "r = of_int (round_half_even (y * 10)) / 10"
  define p where "p = fl r"
  have a: "0 \<le> a" "a \<le> 1" using assms by (simp_all add: a_def)
  have q0: "0 \<le> q" unfolding q_def using a(1) by (rule fl_nonneg)
  have "\<bar>q - a\<bar> \<le> a * u + t"
    using fl_near [OF a(1)] by (simp add: q_def u_def t_def)
  moreover have "a * u \<le> 1 * u" using a u by (intro mult_right_mono) simp_all
  ultimately have qa: "\<bar>q - a\<bar> \<le> u + t" by simp
  with a u t have q2: "q \<le> 2" by linarith
  have y0: "0 \<le> y" unfolding y_def using q0 by (intro fl_nonneg) simp
  have "\<bar>y - q * 100\<bar> \<le> q * 100 * u + t"
    using fl_near [of "q * 100"] q0 by (simp add: y_def u_def t_def)
  moreover have "q * 100 * u \<le> 2 * 100 * u" using q2 u by (intro mult_right_mono) simp_all
  ultimately have yq: "\<bar>y - q * 100\<bar> \<le> 200 * u + t" by simp
  with q2 u t have y401: "y \<le> 401" by linarith
  have "\<bar>of_int (round_half_even (y * 10)) - y * 10\<bar> \<le> 1 / 2"
    by (rule round_half_even_near)
  then have ry: "\<bar>r - y\<bar> \<le> 1 / 20" by (simp add: r_def abs_le_iff field_simps)
  have r0: "0 \<le> r" using y0 by (simp add: r_def round_half_even_nonneg)
  from ry y401 have r402: "r \<le> 402" by linarith
  have "\<bar>p - r\<bar> \<le> r * u + t"
    using fl_near [OF r0] by (simp add: p_def u_def t_def)
  moreover have "r * u \<le> 402 * u" using r402 u by (intro mult_right_mono) simp_all
  ultimately have pr: "\<bar>p - r\<bar> \<le> 402 * u + t" by simp
  have big: "(3 :: rat) < 2 ^ 1024" "(402 :: rat) < 2 ^ 1024" by simp_all
  from q2 big show "fl (of_nat c / of_nat n) < 2 ^ 1024"
    by (simp add: q_def a_def)
  from y401 big show "fl (fl (of_nat c / of_nat n) * 100) < 2 ^ 1024"
    by (simp add: y_def q_def a_def)
  from pr ry yq qa u t have "\<bar>p - a * 100\<bar> \<le> 1 / 20 + 1 / 10000000000000" by linarith
  then show "\<bar>py_round1 (fl (fl (of_nat c / of_nat n) * 100)) - of_nat c / of_nat n * 100\<bar>
         \<le> 1 / 20 + 1 / 10 ^ 13"
    by (simp add: p_def r_def y_def q_def a_def py_round1_def)
qed


lemma language_entry_percentage:
  assumes "0 < n" and "snd lc \<le> n"
  shows "language_entry n lc =
         Inr (JObj [(''language'', language_name (fst lc)), (''code'', fst lc),
                    (''count'', JInt (int (snd lc))),
                    (''percentage'',
                       JFloat (py_round1 (fl (fl (of_nat (snd lc) / of_nat n) * 100))))])"
proof -
  note near = percentage_near [OF assms]
  have q0: "0 \<le> fl (of_nat (snd lc) / of_nat n)" by (intro fl_nonneg) simp
  then have y0: "0 \<le> fl (fl (of_nat (snd lc) / of_nat n) * 100)" by (intro fl_nonneg) simp
  from near(1) q0 have "\<not> float_overflow (fl (of_nat (snd lc) / of_nat n))"
    by (simp add: float_overflow_def)
  moreover from near(2) y0
  have "\<not> float_overflow (fl (fl (of_nat (snd lc) / of_nat n) * 100))"
    by (simp add: float_overflow_def)
  ultimately show ?thesis
    using assms(1)
    by (simp add: language_entry_def true_div_def float_mul_def round_percentage_def)
qed

subsection \<open>Six languages\<close>

lemma six_languages_counts:
  "value_counts (column six_languages ''original_lang'') =
   Inr [(JStr ''en'', 1), (JStr ''hi'', 1), (JStr ''fr'', 1), (JStr ''de'', 1),
        (JStr ''es'', 1), (JStr ''it'', 1)]"
  by (simp add: value_counts_def column_def six_languages_def lang_row_def cell_def)

lemma sixth_percentage:
  "py_round1 (fl (fl (of_nat 1 / of_nat 6) * 100)) = 4700632111067955 / 2 ^ 48"
  by code_simp

lemma six_languages_result:
  "calculate_language_stats six_languages = Inr six_languages_stats"
proof -
  have "''original_lang'' \<in> set (columns six_languages)" "length (rows six_languages) = 6"
    by (simp_all add: six_languages_def)
  moreover have "language_entry 6 (l, 1) =
      Inr (JObj [(''language'', language_name l), (''code'', l), (''count'', JInt 1),
                 (''percentage'', JFloat (4700632111067955 / 2 ^ 48))])" for l
    using language_entry_percentage [of 6 "(l, 1)"] sixth_percentage by simp
  ultimately show ?thesis
    by (simp add: calculate_language_stats_def six_languages_counts language_name_def
        six_languages_stats_def)
qed

text \<open>
  Claim C7, as stated, fails. Six records in six different languages give six entries of
  16.7 percent (the double nearest to 16.7), which add up to more than 100.199: each
  percentage is rounded on its own, and the rounding errors of the entries accumulate.
\<close>

theorem language_percentages_counterexample:
  "rows six_languages \<noteq> [] \<and>
   calculate_language_stats six_languages = Inr six_languages_stats \<and>
   sum_list (percentages six_languages_stats) = 14101896333203865 / 2 ^ 47 \<and>
   \<not> \<bar>sum_list (percentages six_languages_stats) - 100\<bar> \<le> 1 / 10"
proof -
  have "percentages six_languages_stats =
        [4700632111067955 / 2 ^ 48, 4700632111067955 / 2 ^ 48, 4700632111067955 / 2 ^ 48,
         4700632111067955 / 2 ^ 48, 4700632111067955 / 2 ^ 48, 4700632111067955 / 2 ^ 48]"
    by (simp add: percentages_def six_languages_stats_def entry_percentage_def)
  moreover have "rows six_languages \<noteq> []"
    by (simp add: six_languages_def)
  ultimately show ?thesis
    by (simp add: six_languages_result)
qed

subsection \<open>Counts add up to the number of rows\<close>

lemma tally_sum: "sum_list (map snd (tally v kns)) = Suc (sum_list (map snd kns))"
  by (induction kns) auto

lemma foldl_tally_sum:
  "sum_list (map snd (foldl (\<lambda>acc v. tally v acc) acc cells))
   = sum_list (map snd acc) + length cells"
  by (induction cells arbitrary: acc) (simp_all add: tally_sum)

lemma insort_key_sum:
  "sum_list (map f (insort_key k x xs)) = f x + sum_list (map f xs)"
  for f :: "'a \<Rightarrow> nat"
  by (induction xs) auto

lemma sort_key_sum: "sum_list (map f (sort_key k xs)) = sum_list (map f xs)"
  for f :: "'a \<Rightarrow> nat"
  by (induction xs) (simp_all add: insort_key_sum)

lemma is_str_cells:
  "list_all is_str cells \<Longrightarrow>
   list_all hashable cells \<and> filter (\<lambda>c. \<not> is_missing c) cells = cells"
proof (induction cells)
  case Nil
  then show ?case by simp
next
  case (Cons c cells)
  then show ?case by (cases c) simp_all
qed

lemma value_counts_strings:
  assumes "list_all is_str cells"
  obtains lang_counts where "value_counts cells = Inr lang_counts"
    and "sum_list (map snd lang_counts) = length cells"
proof
  from is_str_cells [OF assms]
  show "value_counts cells =
        Inr (sort_key (\<lambda>kn. - int (snd kn)) (foldl (\<lambda>acc v. tally v acc) [] cells))"
    by (simp add: value_counts_def)
  show "sum_list (map snd (sort_key (\<lambda>kn. - int (snd kn))
          (foldl (\<lambda>acc v. tally v acc) [] cells))) = length cells"
    by (simp add: sort_key_sum foldl_tally_sum)
qed


lemma count_le_total:
  fixes lang_counts :: "(json \<times> nat) list"
  shows "lc \<in> set lang_counts \<Longrightarrow> snd lc \<le> sum_list (map snd lang_counts)"
  by (induction lang_counts) auto

lemma map_exc_language_entry_eq:
  assumes "0 < n" and "\<forall>lc \<in> set lang_counts. snd lc \<le> n"
  shows "map_exc (language_entry n) lang_counts =
   Inr (map (\<lambda>lc. JObj [(''language'', language_name (fst lc)), (''code'', fst lc),
                        (''count'', JInt (int (snd lc))),
                        (''percentage'',
                           JFloat (py_round1 (fl (fl (of_nat (snd lc) / of_nat n) * 100))))])
            lang_counts)"
  using assms(2)
  by (induction lang_counts) (simp_all add: language_entry_percentage [OF assms(1)])

lemma rounded_sum_near:
  fixes f g :: "'a \<Rightarrow> rat"
  assumes "\<forall>x \<in> set xs. \<bar>g x - f x\<bar> \<le> d"
  shows "\<bar>(\<Sum>x\<leftarrow>xs. g x) - (\<Sum>x\<leftarrow>xs. f x)\<bar> \<le> of_nat (length xs) * d"
  using assms
proof (induction xs)
  case Nil
  then show ?case by simp
next
  case (Cons x xs)
  then have "\<bar>g x - f x\<bar> \<le> d"
    and "\<bar>(\<Sum>x\<leftarrow>xs. g x) - (\<Sum>x\<leftarrow>xs. f x)\<bar> \<le> of_nat (length xs) * d"
    by simp_all
  then show ?case by (simp add: algebra_simps; linarith)
qed

lemma shares_sum:
  "0 < n \<Longrightarrow>
   (\<Sum>lc\<leftarrow>lang_counts. (of_nat (snd lc) / of_nat n * 100 :: rat))
   = of_nat (sum_list (map snd lang_counts)) / of_nat n * 100"
  by (induction lang_counts) (simp_all add: field_simps)

lemma calculate_language_stats_strings:
  assumes "''original_lang'' \<in> set (columns df)" and "rows df \<noteq> []"
    and "list_all is_str (column df ''original_lang'')"
  obtains stats and lang_counts :: "(json \<times> nat) list"
    where "calculate_language_stats df = Inr stats"
    and "percentages stats =
         map (\<lambda>lc. py_round1 (fl (fl (of_nat (snd lc) / of_nat (length (rows df))) * 100)))
           lang_counts"
    and "sum_list (map snd lang_counts) = length (rows df)"
proof -
  let ?n = "length (rows df)"
  from assms(2) have n: "0 < ?n" by simp
  from value_counts_strings [OF assms(3)] obtain lang_counts where
    vc: "value_counts (column df ''original_lang'') = Inr lang_counts"
    and total: "sum_list (map snd lang_counts) = length (column df ''original_lang'')"
    by blast
  from total have total': "sum_list (map snd lang_counts) = ?n" by (simp add: column_def)
  have le: "\<forall>lc \<in> set lang_counts. snd lc \<le> ?n"
    using count_le_total [of _ lang_counts] by (simp add: total')
  let ?entry = "\<lambda>lc :: json \<times> nat.
      JObj [(''language'', language_name (fst lc)), (''code'', fst lc),
            (''count'', JInt (int (snd lc))),
            (''percentage'',
               JFloat (py_round1 (fl (fl (of_nat (snd lc) / of_nat ?n) * 100))))]"
  have entries: "map_exc (language_entry ?n) lang_counts = Inr (map ?entry lang_counts)"
    by (rule map_exc_language_entry_eq [OF n le])
  have "calculate_language_stats df =
        bind_exc (value_counts (column df ''original_lang'')) (\<lambda>lang_counts.
        bind_exc (map_exc (language_entry ?n) lang_counts) (\<lambda>languages.
        Inr [(''languages'', JList languages)]))"
    using assms(1) by (simp add: calculate_language_stats_def)
  also have "\<dots> = bind_exc (map_exc (language_entry ?n) lang_counts) (\<lambda>languages.
        Inr [(''languages'', JList languages)])"
    by (simp only: vc bind_exc_simps)
  also have "\<dots> = Inr [(''languages'', JList (map ?entry lang_counts))]"
    by (simp only: entries bind_exc_simps)
  finally have res:
    "calculate_language_stats df = Inr [(''languages'', JList (map ?entry lang_counts))]" .
  have "entry_percentage (?entry lc)
        = py_round1 (fl (fl (of_nat (snd lc) / of_nat ?n) * 100))" for lc
    by (simp add: entry_percentage_def)
  then have pcs: "percentages [(''languages'', JList (map ?entry lang_counts))] =
      map (\<lambda>lc. py_round1 (fl (fl (of_nat (snd lc) / of_nat ?n) * 100))) lang_counts"
    unfolding percentages_def by (simp add: comp_def del: of_nat_sum)
  from res pcs total' show ?thesis by (rule that)
qed

text \<open>
  Claim C7, amended. For a frame with at least one row whose \<^verbatim>\<open>original_lang\<close> cells are
  all strings, \<^verbatim>\<open>calculate_language_stats\<close> returns, and the sum of the percentages it
  returns (the exact sum of the floats) differs from 100 by at most \<open>0.05 + 10\<^sup>-\<^sup>1\<^sup>3\<close> for
  each distinct language: 0.05 for the rounding of each percentage to one decimal, the
  rest for the floating-point division, multiplication and conversion. With a single
  language the sum is within 0.1 of 100.
\<close>

theorem language_percentages_sum:
  assumes "''original_lang'' \<in> set (columns df)" and "rows df \<noteq> []"
    and "list_all is_str (column df ''original_lang'')"
  shows "\<exists>stats. calculate_language_stats df = Inr stats \<and>
           \<bar>sum_list (percentages stats) - 100\<bar>
           \<le> of_nat (length (percentages stats)) * (1 / 20 + 1 / 10 ^ 13) \<and>
           (length (percentages stats) = 1 \<longrightarrow> \<bar>sum_list (percentages stats) - 100\<bar> \<le> 1 / 10)"
proof -
  let ?n = "length (rows df)"
  let ?share = "\<lambda>lc :: json \<times> nat. (of_nat (snd lc) / of_nat ?n * 100 :: rat)"
  let ?pct = "\<lambda>lc :: json \<times> nat. py_round1 (fl (fl (of_nat (snd lc) / of_nat ?n) * 100))"
  from assms(2) have n: "0 < ?n" by simp
  from calculate_language_stats_strings [OF assms] obtain stats lang_counts where
    res: "calculate_language_stats df = Inr stats"
    and pcs: "percentages stats = map ?pct lang_counts"
    and total: "sum_list (map snd lang_counts) = ?n"
    by blast
  have shares: "(\<Sum>lc\<leftarrow>lang_counts. ?share lc) = 100"
    using shares_sum [OF n, of lang_counts] n by (simp add: total)
  have "\<forall>lc \<in> set lang_counts. \<bar>?pct lc - ?share lc\<bar> \<le> 1 / 20 + 1 / 10 ^ 13"
  proof
    fix lc assume "lc \<in> set lang_counts"
    then have "snd lc \<le> ?n" using count_le_total [of lc lang_counts] by (simp add: total)
    from percentage_near(3) [OF n this]
    show "\<bar>?pct lc - ?share lc\<bar> \<le> 1 / 20 + 1 / 10 ^ 13" .
  qed
  from rounded_sum_near [OF this]
  have near: "\<bar>sum_list (percentages stats) - 100\<bar>
              \<le> of_nat (length (percentages stats)) * (1 / 20 + 1 / 10 ^ 13)"
    unfolding pcs length_map shares .
  have one: "length (percentages stats) = 1 \<longrightarrow> \<bar>sum_list (percentages stats) - 100\<bar> \<le> 1 / 10"
  proof
    assume "length (percentages stats) = 1"
    with near have "\<bar>sum_list (percentages stats) - 100\<bar> \<le> 1 / 20 + 1 / 10000000000000"
      by simp
    then show "\<bar>sum_list (percentages stats) - 100\<bar> \<le> 1 / 10" by linarith
  qed
  show ?thesis
    by (rule exI [of _ stats]) (rule conjI [OF res conjI [OF near one]])
qed

lemma one_language_result:
  "calculate_language_stats one_language =
   Inr [(''languages'',
         JList [JObj [(''language'', JStr ''Hindi''), (''code'', JStr ''hi''),
                      (''count'', JInt 3), (''percentage'', JFloat 100)]])]"
proof -
  have "''original_lang'' \<in> set (columns one_language)" "length (rows one_language) = 3"
    by (simp_all add: one_language_def)
  moreover have "value_counts (column one_language ''original_lang'') = Inr [(JStr ''hi'', 3)]"
    by (simp add: value_counts_def column_def one_language_def lang_row_def cell_def)
  moreover have "py_round1 (fl (fl (of_nat 3 / of_nat 3) * 100)) = 100"
    by code_simp
  ultimately show ?thesis
    using language_entry_percentage [of 3 "(JStr ''hi'', 3)"]
    by (simp add: calculate_language_stats_def language_name_def)
qed

theorem language_percentages_sum_witness:
  "''original_lang'' \<in> set (columns two_languages) \<and> rows two_languages \<noteq> [] \<and>
   list_all is_str (column two_languages ''original_lang'') \<and>
   (\<exists>stats. calculate_language_stats two_languages = Inr stats \<and>
      \<bar>sum_list (percentages stats) - 100\<bar>
      \<le> of_nat (length (percentages stats)) * (1 / 20 + 1 / 10 ^ 13)) \<and>
   ''original_lang'' \<in> set (columns one_language) \<and> rows one_language \<noteq> [] \<and>
   list_all is_str (column one_language ''original_lang'') \<and>
   (\<exists>stats. calculate_language_stats one_language = Inr stats \<and>
      length (percentages stats) = 1 \<and>
      \<bar>sum_list (percentages stats) - 100\<bar> \<le> 1 / 10)"
proof -
  have two: "''original_lang'' \<in> set (columns two_languages)" "rows two_languages \<noteq> []"
    "list_all is_str (column two_languages ''original_lang'')"
    by (simp_all add: two_languages_def column_def lang_row_def cell_def)
  have one: "''original_lang'' \<in> set (columns one_language)" "rows one_language \<noteq> []"
    "list_all is_str (column one_language ''original_lang'')"
    by (simp_all add: one_language_def column_def lang_row_def cell_def)
  from language_percentages_sum [OF two]
  have A: "\<exists>stats. calculate_language_stats two_languages = Inr stats \<and>
      \<bar>sum_list (percentages stats) - 100\<bar>
      \<le> of_nat (length (percentages stats)) * (1 / 20 + 1 / 10 ^ 13)"
    by blast
  from language_percentages_sum [OF one] obtain stats where
    s: "calculate_language_stats one_language = Inr stats"
    and imp: "length (percentages stats) = 1 \<longrightarrow> \<bar>sum_list (percentages stats) - 100\<bar> \<le> 1 / 10"
    by blast
  from s one_language_result have "length (percentages stats) = 1"
    by (auto simp add: percentages_def)
  with s imp
  have B: "\<exists>stats. calculate_language_stats one_language = Inr stats \<and>
      length (percentages stats) = 1 \<and>
      \<bar>sum_list (percentages stats) - 100\<bar> \<le> 1 / 10"
    by blast
  from two A one B show ?thesis by (intro conjI)
qed

section \<open>Properties of persistence and retrieval\<close>

lemma calculate_language_stats_shape:
  assumes "calculate_language_stats df = Inr stats"
  obtains languages where "stats = [(''languages'', JList languages)]"
  using assms
  by (auto simp add: calculate_language_stats_def bind_exc_eq_Inr split: if_splits)

text \<open>
  The three ways \<^verbatim>\<open>save_tweets_with_sentiment\<close> ends: it raises with nothing written, it
  raises at the second \<^verbatim>\<open>open\<close> with the named file written, or it returns with both
  files written. The named file is always under \<^verbatim>\<open>data/\<close>.
\<close>

lemma save_tweets_cases:
  obtains (raised) e where
      "save_tweets_with_sentiment refusals timestamp df search_query fs = (Inl e, fs)"
  | (half) e sanitized_query content where
      "save_tweets_with_sentiment refusals timestamp df search_query fs =
       (Inl e, fs(''data/tweets_'' @ sanitized_query @ ''_'' @ timestamp @ ''.json'' \<mapsto>
                    content))"
  | (saved) languages sanitized_query where
      "calculate_language_stats df = Inr [(''languages'', JList languages)]"
      "sanitize_query search_query = Inr sanitized_query"
      "save_tweets_with_sentiment refusals timestamp df search_query fs =
       (Inr (''data/tweets_'' @ sanitized_query @ ''_'' @ timestamp @ ''.json''),
        (fs(''data/tweets_'' @ sanitized_query @ ''_'' @ timestamp @ ''.json'' \<mapsto>
              Json (JObj [(''metadata'',
                             JObj [(''search_query'', search_query),
                                   (''timestamp'', JStr timestamp),
                                   (''total_tweets'', JInt (int (length (rows df)))),
                                   (''language_stats'', JList languages)]),
                          (''tweets'',
                             JList (map (\<lambda>row. JObj (map (\<lambda>col. (col, cell row col))
                                      (filter (\<lambda>col. col \<in> set (columns df)) desired_columns)))
                                    (rows df)))])))
          (''data/latest_tweets.json'' \<mapsto>
              Json (JObj [(''metadata'',
                             JObj [(''search_query'', search_query),
                                   (''timestamp'', JStr timestamp),
                                   (''total_tweets'', JInt (int (length (rows df)))),
                                   (''language_stats'', JList languages)]),
                          (''tweets'',
                             JList (map (\<lambda>row. JObj (map (\<lambda>col. (col, cell row col))
                                      (filter (\<lambda>col. col \<in> set (columns df)) desired_columns)))
                                    (rows df)))])))"
proof (cases "calculate_language_stats df")
  case (Inl e)
  then have "save_tweets_with_sentiment refusals timestamp df search_query fs = (Inl e, fs)"
    by (simp add: save_tweets_with_sentiment_def)
  then show ?thesis by (rule raised)
next
  case (Inr stats)
  then obtain languages where stats: "stats = [(''languages'', JList languages)]"
    by (rule calculate_language_stats_shape)
  from Inr stats
  have cls: "calculate_language_stats df = Inr [(''languages'', JList languages)]"
    by simp
  show ?thesis
  proof (cases "sanitize_query search_query")
    case (Inl e)
    with cls
    have "save_tweets_with_sentiment refusals timestamp df search_query fs = (Inl e, fs)"
      by (simp add: save_tweets_with_sentiment_def row_index_def)
    then show ?thesis by (rule raised)
  next
    case sq: (Inr sanitized_query)
    let ?filename = "''data/tweets_'' @ sanitized_query @ ''_'' @ timestamp @ ''.json''"
    show ?thesis
    proof (cases "makedirs refusals (dirname ?filename)")
      case (Some e)
      with cls sq
      have "save_tweets_with_sentiment refusals timestamp df search_query fs = (Inl e, fs)"
        by (simp add: save_tweets_with_sentiment_def row_index_def Let_def)
      then show ?thesis by (rule raised)
    next
      case md: None
      show ?thesis
      proof (cases "os_call refusals ?filename")
        case (Some e)
        with cls sq md
        have "save_tweets_with_sentiment refusals timestamp df search_query fs = (Inl e, fs)"
          by (simp add: save_tweets_with_sentiment_def row_index_def Let_def)
        then show ?thesis by (rule raised)
      next
        case op1: None
        show ?thesis
        proof (cases "os_call refusals ''data/latest_tweets.json''")
          case (Some e)
          with cls sq md op1 show ?thesis
            by (intro half [of e sanitized_query])
               (simp add: save_tweets_with_sentiment_def row_index_def Let_def)
        next
          case None
          with cls sq md op1 show ?thesis
            by (intro saved [OF cls sq])
               (simp add: save_tweets_with_sentiment_def row_index_def Let_def)
        qed
      qed
    qed
  qed
qed

text \<open>
  What \<^verbatim>\<open>save\<close> does write when it returns: under \<^verbatim>\<open>data/latest_tweets.json\<close>, an envelope
  with one tweet for each row of the frame, restricted to the allow-listed columns.
\<close>

lemma save_writes_latest:
  assumes "fst (save_tweets_with_sentiment refusals timestamp df search_query fs)
           = Inr filename"
  shows "\<exists>metadata.
           snd (save_tweets_with_sentiment refusals timestamp df search_query fs)
             ''data/latest_tweets.json'' =
           Some (Json (JObj [(''metadata'', metadata),
                  (''tweets'',
                     JList (map (\<lambda>row. JObj (map (\<lambda>col. (col, cell row col))
                              (filter (\<lambda>col. col \<in> set (columns df)) desired_columns)))
                            (rows df)))]))"
proof (cases rule: save_tweets_cases [of refusals timestamp df search_query fs])
  case (raised e)
  with assms show ?thesis by simp
next
  case (half e sanitized_query content)
  with assms show ?thesis by simp
next
  case (saved languages sanitized_query)
  then show ?thesis by simp
qed

text \<open>
  What it does not write: the file that \<^verbatim>\<open>GET /api/tweets\<close> reads. Every path that
  \<^verbatim>\<open>save\<close> writes starts with \<^verbatim>\<open>data/\<close>, the path that is read with \<^verbatim>\<open>server/\<close>.
\<close>

lemma save_leaves_served_file:
  "snd (save_tweets_with_sentiment refusals timestamp df search_query fs)
     ''server/data/latest_tweets.json'' = fs ''server/data/latest_tweets.json''"
proof (cases rule: save_tweets_cases [of refusals timestamp df search_query fs])
  case (raised e)
  then show ?thesis by simp
next
  case (half e sanitized_query content)
  then show ?thesis by simp
next
  case (saved languages sanitized_query)
  then show ?thesis by simp
qed

lemma get_latest_after_save:
  "get_latest_tweets env
     (w\<lparr>files :=
          snd (save_tweets_with_sentiment refusals timestamp df search_query (files w))\<rparr>)
   = get_latest_tweets env w"
  by (simp add: get_latest_tweets_def save_leaves_served_file)

lemma two_languages_strings:
  "''original_lang'' \<in> set (columns two_languages)" "rows two_languages \<noteq> []"
  "list_all is_str (column two_languages ''original_lang'')"
  by (simp_all add: two_languages_def column_def lang_row_def cell_def)

text \<open>
  Claim C1 does not hold of the code. On an empty disk, saving a frame of three tweets
  for the query \<^verbatim>\<open>"a b"\<close> succeeds and returns the name of the file under \<^verbatim>\<open>data/\<close>, and
  \<^verbatim>\<open>GET /api/tweets\<close> right after it answers 404, "No tweet data available yet":
  \<^verbatim>\<open>save_tweets_with_sentiment\<close> writes \<^verbatim>\<open>data/latest_tweets.json\<close>, the handler reads
  \<^verbatim>\<open>server/data/latest_tweets.json\<close>.
\<close>

theorem save_then_get_latest_not_found:
  "fst (save_tweets_with_sentiment (os_error example_services) (now example_services)
          two_languages (JStr ''a b'') (files empty_world))
   = Inr ''data/tweets_a_b_2024-05-01_12-00-00.json'' \<and>
   snd (save_tweets_with_sentiment (os_error example_services) (now example_services)
          two_languages (JStr ''a b'') (files empty_world)) ''data/latest_tweets.json''
   \<noteq> None \<and>
   get_latest_tweets example_services
     \<lparr>files = snd (save_tweets_with_sentiment (os_error example_services)
                     (now example_services) two_languages (JStr ''a b'')
                     (files empty_world)),
      requests_sent = []\<rparr>
   = (404, JObj [(''message'', JStr ''No tweet data available yet'')])"
proof -
  let ?save = "save_tweets_with_sentiment (os_error example_services) (now example_services)
                 two_languages (JStr ''a b'') (files empty_world)"
  from two_languages_strings obtain stats where
    "calculate_language_stats two_languages = Inr stats"
    by (rule calculate_language_stats_strings)
  then obtain languages where
    cls: "calculate_language_stats two_languages = Inr [(''languages'', JList languages)]"
    by (auto elim: calculate_language_stats_shape)
  have name: "fst ?save = Inr ''data/tweets_a_b_2024-05-01_12-00-00.json''"
    by (simp add: save_tweets_with_sentiment_def cls row_index_def sanitize_query_def Let_def
        makedirs_def os_call_def dirname_def example_services_def)
  from save_writes_latest [OF name]
  have written: "snd ?save ''data/latest_tweets.json'' \<noteq> None" by auto
  have "get_latest_tweets example_services \<lparr>files = snd ?save, requests_sent = []\<rparr>
        = (404, JObj [(''message'', JStr ''No tweet data available yet'')])"
    by (simp add: get_latest_tweets_def save_leaves_served_file empty_world_def)
  with name written show ?thesis by simp
qed

section \<open>Properties of the handlers\<close>

text \<open>
  Claim C8. When the JSON body of \<^verbatim>\<open>POST /api/variable\<close> has no \<^verbatim>\<open>searchQuery\<close> or an
  empty one, the handler answers with status 400 and leaves the world as it was: no
  request has been sent upstream and no file has been created or changed, the latest
  file included.
\<close>

theorem variable_empty_query:
  assumes "map_of kvs ''searchQuery'' = None \<or> map_of kvs ''searchQuery'' = Some (JStr [])"
  shows "variable env (JObj kvs) w =
         (Inr (400, JObj [(''message'', JStr ''No search query provided.'')]), w)"
  using assms by (auto simp add: variable_def)

theorem variable_empty_query_witness:
  "map_of [(''searchQuery'', JStr [])] ''searchQuery'' = Some (JStr []) \<and>
   variable example_services (JObj [(''searchQuery'', JStr [])]) empty_world =
   (Inr (400, JObj [(''message'', JStr ''No search query provided.'')]), empty_world) \<and>
   map_of ([] :: pydict) ''searchQuery'' = None \<and>
   variable example_services (JObj []) empty_world =
   (Inr (400, JObj [(''message'', JStr ''No search query provided.'')]), empty_world)"
  using variable_empty_query [of "[(''searchQuery'', JStr [])]" example_services empty_world]
    variable_empty_query [of "[]" example_services empty_world]
  by simp

end
